theory Spec2Isabelle
  imports Complex_Main "HOL-Library.AList" "HOL-Library.List_Lexorder" "HOL-Library.Char_ord"
    "HOL-Library.Multiset"
begin

section \<open>Items, tables and requests\<close>

text \<open>
  A DynamoDB attribute value carries its type tag. Numbers are exact decimals in the
  store, modelled as rationals; strings are byte strings ordered lexicographically.
\<close>

datatype attr_value =
    S string
  | N rat
  | BOOL bool
  | L "attr_value list"
  | M "(string \<times> attr_value) list"

type_synonym item = "string \<rightharpoonup> attr_value"

text \<open>The primary key of the table: \<open>(partitionKey, sortKey)\<close>.\<close>

type_synonym pkey = "string \<times> string"

type_synonym table = "(pkey \<times> item) list"

datatype error =
    AssertionError
  | KeyError string
  | NotAString string
  | IndexError
  | PostException
  | PostDoesNotExist string
  | ConditionalCheckFailedException
  | TransactionCanceledException
  | ValidationException

text \<open>
  An update expression is a list of actions with the placeholders of
  \<open>ExpressionAttributeNames\<close> and \<open>ExpressionAttributeValues\<close> already substituted; a
  condition expression is a small formula over the stored item.
\<close>

datatype action =
    SET string attr_value
  | REMOVE string
  | ADD string rat

datatype condition =
    attribute_exists string
  | Cmp_eq string attr_value
  | Cmp_gt string attr_value
  | And condition condition

record update_req =
  Key :: pkey
  UpdateExpression :: "action list"
  ConditionExpression :: "condition option"

datatype transact = Update update_req

text \<open>
  Modelled from the spec: the status and like-status constants of
  \<open>app/models/post/enums.py\<close> and \<open>app/models/like/enums.py\<close>, which are not among the
  source files. The code only formats and compares them as strings.
\<close>

definition COMPLETED :: string where
  "COMPLETED = ''COMPLETED''"

definition ONYMOUSLY_LIKED :: string where
  "ONYMOUSLY_LIKED = ''ONYMOUSLY_LIKED''"

definition ANONYMOUSLY_LIKED :: string where
  "ANONYMOUSLY_LIKED = ''ANONYMOUSLY_LIKED''"

subsection \<open>Python helpers\<close>

text \<open>Truthiness of the result of \<open>dict.get\<close>: \<open>None\<close> and empty values are false.\<close>

fun truthy :: "attr_value option \<Rightarrow> bool" where
  "truthy None = False"
| "truthy (Some (S s)) = (s \<noteq> [])"
| "truthy (Some (N n)) = (n \<noteq> 0)"
| "truthy (Some (BOOL b)) = b"
| "truthy (Some (L xs)) = (xs \<noteq> [])"
| "truthy (Some (M kvs)) = (kvs \<noteq> [])"

text \<open>
  \<open>post_item[k]\<close> inside an f-string. A missing key raises \<open>KeyError\<close>. The attributes
  read this way (\<open>postedAt\<close>, \<open>postType\<close>, \<open>postId\<close>, \<open>expiresAt\<close>, \<open>postStatus\<close>) are
  strings in every stored post; the formatting of other value types is not modelled and
  is reported as \<open>NotAString\<close>.
\<close>

definition getitem_str :: "item \<Rightarrow> string \<Rightarrow> error + string" where
  "getitem_str post_item k =
     (case post_item k of
        None \<Rightarrow> Inl (KeyError k)
      | Some (S s) \<Rightarrow> Inr s
      | Some _ \<Rightarrow> Inl (NotAString k))"

text \<open>Sequencing of steps that may raise: the first error ends the computation.\<close>

definition and_then :: "error + 'a \<Rightarrow> ('a \<Rightarrow> error + 'b) \<Rightarrow> error + 'b" where
  "and_then m f = (case m of Inl e \<Rightarrow> Inl e | Inr x \<Rightarrow> f x)"

text \<open>\<open>str.split(sep)\<close> for a one-character separator.\<close>

fun split :: "char \<Rightarrow> string \<Rightarrow> string list" where
  "split c [] = [[]]"
| "split c (x # xs) =
     (if x = c then [] # split c xs
      else (case split c xs of [] \<Rightarrow> [[x]] | w # ws \<Rightarrow> (x # w) # ws))"

text \<open>\<open>item['partitionKey'].split('/')[1]\<close>.\<close>

definition second_segment :: "item \<Rightarrow> error + string" where
  "second_segment it =
     (case getitem_str it ''partitionKey'' of
        Inl e \<Rightarrow> Inl e
      | Inr s \<Rightarrow> (case split CHR ''/'' s of (_ # p # _) \<Rightarrow> Inr p | _ \<Rightarrow> Inl IndexError))"

section \<open>The request builders of \<open>PostDynamo\<close>\<close>

definition post_pk :: "string \<Rightarrow> pkey" where
  "post_pk post_id = (''post/'' @ post_id, ''-'')"

definition transact_increment_flag_count :: "string \<Rightarrow> transact" where
  "transact_increment_flag_count post_id = Update \<lparr>
     Key = post_pk post_id,
     UpdateExpression = [ADD ''flagCount'' 1],
     ConditionExpression = Some (attribute_exists ''partitionKey'') \<rparr>"

definition transact_decrement_flag_count :: "string \<Rightarrow> transact" where
  "transact_decrement_flag_count post_id = Update \<lparr>
     Key = post_pk post_id,
     UpdateExpression = [ADD ''flagCount'' (- 1)],
     ConditionExpression =
       Some (And (attribute_exists ''partitionKey'') (Cmp_gt ''flagCount'' (N 0))) \<rparr>"

definition transact_set_post_status ::
  "item \<Rightarrow> string \<Rightarrow> string option \<Rightarrow> rat option \<Rightarrow> error + transact" where
  "transact_set_post_status post_item status original_post_id album_rank =
     (let album_id = post_item ''albumId'' in
      if (album_rank \<noteq> None) \<noteq> (truthy album_id \<and> status = COMPLETED) then Inl AssertionError
      else
        let album_rank' = (case album_rank of Some r \<Rightarrow> r | None \<Rightarrow> - 1) in
        and_then (getitem_str post_item ''postedAt'') (\<lambda>posted_at.
        and_then (getitem_str post_item ''postType'') (\<lambda>post_type.
        and_then (if post_item ''expiresAt'' \<noteq> None
                  then and_then (getitem_str post_item ''expiresAt'') (\<lambda>expires_at.
                         Inr [SET ''gsiA1SortKey'' (S (status @ ''/'' @ expires_at))])
                  else Inr []) (\<lambda>expires_sets.
        and_then (getitem_str post_item ''postId'') (\<lambda>post_id.
          Inr (Update \<lparr>
            Key = post_pk post_id,
            UpdateExpression =
              [SET ''postStatus'' (S status),
               SET ''gsiA2SortKey'' (S (status @ ''/'' @ posted_at)),
               SET ''gsiA3SortKey'' (S (status @ ''/'' @ post_type @ ''/'' @ posted_at))]
              @ (case original_post_id of
                   Some opi \<Rightarrow> if opi \<noteq> [] then [SET ''originalPostId'' (S opi)] else []
                 | None \<Rightarrow> [])
              @ (if truthy album_id then [SET ''gsiK3SortKey'' (N album_rank')] else [])
              @ expires_sets,
            ConditionExpression = Some (attribute_exists ''partitionKey'') \<rparr>))))))"

definition like_count_attribute :: "string \<Rightarrow> error + string" where
  "like_count_attribute like_status =
     (if like_status = ONYMOUSLY_LIKED then Inr ''onymousLikeCount''
      else if like_status = ANONYMOUSLY_LIKED then Inr ''anonymousLikeCount''
      else Inl PostException)"

definition transact_increment_like_count :: "string \<Rightarrow> string \<Rightarrow> error + transact" where
  "transact_increment_like_count post_id like_status =
     (case like_count_attribute like_status of
        Inl e \<Rightarrow> Inl e
      | Inr count_name \<Rightarrow> Inr (Update \<lparr>
          Key = post_pk post_id,
          UpdateExpression = [ADD count_name 1],
          ConditionExpression = Some (attribute_exists ''partitionKey'') \<rparr>))"

definition transact_decrement_like_count :: "string \<Rightarrow> string \<Rightarrow> error + transact" where
  "transact_decrement_like_count post_id like_status =
     (case like_count_attribute like_status of
        Inl e \<Rightarrow> Inl e
      | Inr count_name \<Rightarrow> Inr (Update \<lparr>
          Key = post_pk post_id,
          UpdateExpression = [ADD count_name (- 1)],
          ConditionExpression =
            Some (And (attribute_exists ''partitionKey'') (Cmp_gt count_name (N 0))) \<rparr>))"

definition transact_increment_comment_count :: "string \<Rightarrow> transact" where
  "transact_increment_comment_count post_id = Update \<lparr>
     Key = post_pk post_id,
     UpdateExpression = [ADD ''commentCount'' 1],
     ConditionExpression = Some (attribute_exists ''partitionKey'') \<rparr>"

definition transact_decrement_comment_count :: "string \<Rightarrow> transact" where
  "transact_decrement_comment_count post_id = Update \<lparr>
     Key = post_pk post_id,
     UpdateExpression = [ADD ''commentCount'' (- 1)],
     ConditionExpression =
       Some (And (attribute_exists ''partitionKey'') (Cmp_gt ''commentCount'' (N 0))) \<rparr>"

definition remove_album_req :: "string \<Rightarrow> transact" where
  "remove_album_req post_id = Update \<lparr>
     Key = post_pk post_id,
     UpdateExpression =
       [REMOVE ''albumId'', REMOVE ''gsiK3PartitionKey'', REMOVE ''gsiK3SortKey''],
     ConditionExpression = Some (attribute_exists ''partitionKey'') \<rparr>"

definition transact_set_album_id ::
  "item \<Rightarrow> string option \<Rightarrow> rat option \<Rightarrow> error + transact" where
  "transact_set_album_id post_item album_id album_rank =
     and_then (getitem_str post_item ''postId'') (\<lambda>post_id.
     and_then (getitem_str post_item ''postStatus'') (\<lambda>post_status.
       let given = (case album_id of Some a \<Rightarrow> a \<noteq> [] | None \<Rightarrow> False) in
       if (album_rank \<noteq> None) \<noteq> (given \<and> post_status = COMPLETED) then Inl AssertionError
       else
         let album_rank' = (case album_rank of Some r \<Rightarrow> r | None \<Rightarrow> - 1) in
         (case album_id of
            Some a \<Rightarrow>
              if a \<noteq> [] then Inr (Update \<lparr>
                Key = post_pk post_id,
                UpdateExpression =
                  [SET ''albumId'' (S a),
                   SET ''gsiK3PartitionKey'' (S (''post/'' @ a)),
                   SET ''gsiK3SortKey'' (N album_rank')],
                ConditionExpression =
                  Some (And (attribute_exists ''partitionKey'')
                            (Cmp_eq ''postStatus'' (S post_status))) \<rparr>)
              else Inr (remove_album_req post_id)
          | None \<Rightarrow> Inr (remove_album_req post_id))))"

section \<open>The store\<close>

text \<open>
  Modelled from the spec: the storage adapter (\<open>app/clients/dynamo.py\<close> and the database
  behind it), which is not among the source files. Section 6 of the specification gives
  its contract: conditional updates that fail with a conditional-check error, atomic
  multi-item transactions that are cancelled as a whole, and index queries that return
  the matching items ordered by sort key.
\<close>

fun holds :: "item option \<Rightarrow> condition \<Rightarrow> bool" where
  "holds it (attribute_exists a) = (case it of None \<Rightarrow> False | Some i \<Rightarrow> i a \<noteq> None)"
| "holds it (Cmp_eq a v) = (case it of None \<Rightarrow> False | Some i \<Rightarrow> i a = Some v)"
| "holds it (Cmp_gt a v) =
     (case it of
        None \<Rightarrow> False
      | Some i \<Rightarrow>
          (case (i a, v) of
             (Some (N x), N y) \<Rightarrow> y < x
           | (Some (S x), S y) \<Rightarrow> y < x
           | _ \<Rightarrow> False))"
| "holds it (And c d) = (holds it c \<and> holds it d)"

text \<open>
  One action of an update expression. \<open>ADD\<close> starts from zero when the attribute is
  absent and is rejected by the store when the attribute is not a number.
\<close>

fun apply_action :: "action \<Rightarrow> item \<Rightarrow> item option" where
  "apply_action (SET a v) i = Some (i(a \<mapsto> v))"
| "apply_action (REMOVE a) i = Some (i(a := None))"
| "apply_action (ADD a n) i =
     (case i a of
        None \<Rightarrow> Some (i(a \<mapsto> N n))
      | Some (N x) \<Rightarrow> Some (i(a \<mapsto> N (x + n)))
      | Some _ \<Rightarrow> None)"

fun apply_actions :: "action list \<Rightarrow> item \<Rightarrow> item option" where
  "apply_actions [] i = Some i"
| "apply_actions (a # as) i =
     (case apply_action a i of None \<Rightarrow> None | Some i' \<Rightarrow> apply_actions as i')"

text \<open>An update of an absent item that passes its condition creates the item from its key.\<close>

definition key_item :: "pkey \<Rightarrow> item" where
  "key_item k = [''partitionKey'' \<mapsto> S (fst k), ''sortKey'' \<mapsto> S (snd k)]"

definition base_item :: "table \<Rightarrow> pkey \<Rightarrow> item" where
  "base_item tbl k = (case map_of tbl k of None \<Rightarrow> key_item k | Some i \<Rightarrow> i)"

datatype outcome = Rejected | ConditionFailed | Updated table item

definition run_update :: "table \<Rightarrow> update_req \<Rightarrow> outcome" where
  "run_update tbl u =
     (let cur = map_of tbl (Key u) in
      if (case ConditionExpression u of None \<Rightarrow> False | Some c \<Rightarrow> \<not> holds cur c)
      then ConditionFailed
      else
        (case apply_actions (UpdateExpression u) (base_item tbl (Key u)) of
           None \<Rightarrow> Rejected
         | Some i' \<Rightarrow> Updated (AList.update (Key u) i' tbl) i'))"

text \<open>
  \<open>client.update_item\<close>: the wrapper requires the item to exist unless the request says
  otherwise (the tests for \<open>set_checksum\<close> and \<open>increment_viewed_by_count\<close> on a missing
  post expect the conditional-check error although the requests carry no condition), and
  returns the item as it is after the update.
\<close>

definition update_item :: "table \<Rightarrow> update_req \<Rightarrow> error + (table \<times> item)" where
  "update_item tbl u =
     (let c = (case ConditionExpression u of
                 None \<Rightarrow> attribute_exists ''partitionKey''
               | Some c' \<Rightarrow> And (attribute_exists ''partitionKey'') c') in
      case run_update tbl (u\<lparr>ConditionExpression := Some c\<rparr>) of
        Rejected \<Rightarrow> Inl ValidationException
      | ConditionFailed \<Rightarrow> Inl ConditionalCheckFailedException
      | Updated tbl' i' \<Rightarrow> Inr (tbl', i'))"

text \<open>
  \<open>client.transact_write_items\<close>: all or nothing. The store refuses two operations on
  one item in the same transaction.
\<close>

fun run_transacts :: "table \<Rightarrow> transact list \<Rightarrow> error + table" where
  "run_transacts tbl [] = Inr tbl"
| "run_transacts tbl (Update u # ts) =
     (case run_update tbl u of
        Rejected \<Rightarrow> Inl ValidationException
      | ConditionFailed \<Rightarrow> Inl TransactionCanceledException
      | Updated tbl' _ \<Rightarrow> run_transacts tbl' ts)"

definition transact_write_items :: "table \<Rightarrow> transact list \<Rightarrow> error + table" where
  "transact_write_items tbl ts =
     (if \<not> distinct (map (\<lambda>t. case t of Update u \<Rightarrow> Key u) ts) then Inl ValidationException
      else run_transacts tbl ts)"

text \<open>
  \<open>client.generate_all_query\<close> on a secondary index. An item is in the index when it
  carries both key attributes of the index; the query returns the items of one partition
  whose sort key satisfies every sort-key condition and that pass the filter, in ascending
  order of the sort key. \<open>client.query_head\<close> is the first of them.
\<close>

definition str_attr :: "item \<Rightarrow> string \<Rightarrow> string option" where
  "str_attr i a = (case i a of Some (S s) \<Rightarrow> Some s | _ \<Rightarrow> None)"

definition num_attr :: "item \<Rightarrow> string \<Rightarrow> rat option" where
  "num_attr i a = (case i a of Some (N n) \<Rightarrow> Some n | _ \<Rightarrow> None)"

definition str_key :: "string \<Rightarrow> item \<Rightarrow> string" where
  "str_key a i = (case str_attr i a of Some s \<Rightarrow> s | None \<Rightarrow> [])"

definition num_key :: "string \<Rightarrow> item \<Rightarrow> rat" where
  "num_key a i = (case num_attr i a of Some n \<Rightarrow> n | None \<Rightarrow> 0)"

definition in_str_index ::
  "string \<Rightarrow> string \<Rightarrow> string \<Rightarrow> (string \<Rightarrow> bool) list \<Rightarrow> item \<Rightarrow> bool" where
  "in_str_index pk_name sk_name pk sk_conds i =
     (str_attr i pk_name = Some pk \<and>
      (case str_attr i sk_name of None \<Rightarrow> False | Some s \<Rightarrow> list_all (\<lambda>c. c s) sk_conds))"

definition in_num_index ::
  "string \<Rightarrow> string \<Rightarrow> string \<Rightarrow> (rat \<Rightarrow> bool) list \<Rightarrow> item \<Rightarrow> bool" where
  "in_num_index pk_name sk_name pk sk_conds i =
     (str_attr i pk_name = Some pk \<and>
      (case num_attr i sk_name of None \<Rightarrow> False | Some n \<Rightarrow> list_all (\<lambda>c. c n) sk_conds))"

definition generate_all_query ::
  "table \<Rightarrow> string \<Rightarrow> string \<Rightarrow> string \<Rightarrow> (string \<Rightarrow> bool) list \<Rightarrow> (item \<Rightarrow> bool) \<Rightarrow> item list" where
  "generate_all_query tbl pk_name sk_name pk sk_conds flt =
     filter flt
       (sort_key (str_key sk_name)
          (filter (in_str_index pk_name sk_name pk sk_conds) (map snd tbl)))"

definition generate_all_query_num ::
  "table \<Rightarrow> string \<Rightarrow> string \<Rightarrow> string \<Rightarrow> (rat \<Rightarrow> bool) list \<Rightarrow> item list" where
  "generate_all_query_num tbl pk_name sk_name pk sk_conds =
     sort_key (num_key sk_name)
       (filter (in_num_index pk_name sk_name pk sk_conds) (map snd tbl))"


text \<open>A projection expression keeps the named attributes only.\<close>

definition project :: "string list \<Rightarrow> item \<Rightarrow> item" where
  "project names i = (\<lambda>a. if a \<in> set names then i a else None)"

section \<open>The operations of \<open>PostDynamo\<close> that call the store\<close>

definition get_post :: "table \<Rightarrow> string \<Rightarrow> item option" where
  "get_post tbl post_id = map_of tbl (post_pk post_id)"



definition increment_viewed_by_count :: "table \<Rightarrow> string \<Rightarrow> error + (table \<times> item)" where
  "increment_viewed_by_count tbl post_id =
     (case update_item tbl \<lparr>
             Key = post_pk post_id,
             UpdateExpression = [ADD ''viewedByCount'' 1],
             ConditionExpression = None \<rparr> of
        Inl ConditionalCheckFailedException \<Rightarrow> Inl (PostDoesNotExist post_id)
      | Inl e \<Rightarrow> Inl e
      | Inr r \<Rightarrow> Inr r)"

text \<open>
  The multi-field edit, \<open>PostDynamo.set\<close>. \<open>exp_actions\<close> groups the actions by keyword
  in the order the keywords are first used: the removals of an emptied text come before
  every \<open>SET\<close>.
\<close>

definition bool_set :: "string \<Rightarrow> bool option \<Rightarrow> action list" where
  "bool_set a v = (case v of None \<Rightarrow> [] | Some b \<Rightarrow> [SET a (BOOL b)])"

definition set_post ::
  "table \<Rightarrow> string \<Rightarrow> string option \<Rightarrow> attr_value list option \<Rightarrow>
     bool option \<Rightarrow> bool option \<Rightarrow> bool option \<Rightarrow> bool option \<Rightarrow> error + (table \<times> item)" where
  "set_post tbl post_id text text_tags comments_disabled likes_disabled sharing_disabled
       verification_hidden =
     (if \<not> (text \<noteq> None \<or> comments_disabled \<noteq> None \<or> likes_disabled \<noteq> None
             \<or> sharing_disabled \<noteq> None \<or> verification_hidden \<noteq> None)
      then Inl AssertionError
      else update_item tbl \<lparr>
        Key = post_pk post_id,
        UpdateExpression =
          (case text of
             None \<Rightarrow> []
           | Some t \<Rightarrow>
               if t = [] then [REMOVE ''text'', REMOVE ''textTags'']
               else [SET ''text'' (S t)]
                    @ (case text_tags of None \<Rightarrow> [] | Some tu \<Rightarrow> [SET ''textTags'' (L tu)]))
          @ bool_set ''commentsDisabled'' comments_disabled
          @ bool_set ''likesDisabled'' likes_disabled
          @ bool_set ''sharingDisabled'' sharing_disabled
          @ bool_set ''verificationHidden'' verification_hidden,
        ConditionExpression = None \<rparr>)"



definition generate_post_ids_in_album ::
  "table \<Rightarrow> string \<Rightarrow> bool option \<Rightarrow> rat option \<Rightarrow> error + (error + string) list" where
  "generate_post_ids_in_album tbl album_id completed after_rank =
     (if \<not> (completed = None \<or> after_rank = None) then Inl AssertionError
      else Inr (map (\<lambda>i. second_segment i)
        (map (project [''partitionKey''])
          (generate_all_query_num tbl ''gsiK3PartitionKey'' ''gsiK3SortKey'' (''post/'' @ album_id)
             ((if completed = Some True then [\<lambda>r. - 1 < r] else [])
              @ (if completed = Some False then [\<lambda>r. r = - 1] else [])
              @ (case after_rank of None \<Rightarrow> [] | Some a \<Rightarrow> [\<lambda>r. a < r]))))))"

section \<open>Vocabulary of the properties\<close>

text \<open>The attribute an action writes.\<close>

fun action_attr :: "action \<Rightarrow> string" where
  "action_attr (SET a v) = a"
| "action_attr (REMOVE a) = a"
| "action_attr (ADD a n) = a"

text \<open>
  The actions \<open>transact_set_post_status\<close> puts in its request, given the strings it read
  from the post item.
\<close>

definition status_actions ::
  "item \<Rightarrow> string \<Rightarrow> string option \<Rightarrow> rat option \<Rightarrow> string \<Rightarrow> string \<Rightarrow> action list" where
  "status_actions post_item status opi rank posted_at post_type =
     [SET ''postStatus'' (S status),
      SET ''gsiA2SortKey'' (S (status @ ''/'' @ posted_at)),
      SET ''gsiA3SortKey'' (S (status @ ''/'' @ post_type @ ''/'' @ posted_at))]
     @ (case opi of
          Some x \<Rightarrow> if x \<noteq> [] then [SET ''originalPostId'' (S x)] else []
        | None \<Rightarrow> [])
     @ (if truthy (post_item ''albumId'')
        then [SET ''gsiK3SortKey'' (N (case rank of Some r \<Rightarrow> r | None \<Rightarrow> - 1))] else [])
     @ (case post_item ''expiresAt'' of
          Some (S e) \<Rightarrow> [SET ''gsiA1SortKey'' (S (status @ ''/'' @ e))]
        | _ \<Rightarrow> [])"

text \<open>The attributes a status change may write, as the frame property lists them.\<close>

definition status_touched :: "item \<Rightarrow> string option \<Rightarrow> string set" where
  "status_touched post_item original_post_id =
     {''postStatus'', ''gsiA2SortKey'', ''gsiA3SortKey''}
     \<union> (if original_post_id \<noteq> None \<and> original_post_id \<noteq> Some [] then {''originalPostId''} else {})
     \<union> (if truthy (post_item ''albumId'') then {''gsiK3SortKey''} else {})
     \<union> (if post_item ''expiresAt'' \<noteq> None then {''gsiA1SortKey''} else {})"

text \<open>An attribute of the stored record of a post.\<close>

definition stored_attr :: "table \<Rightarrow> string \<Rightarrow> string \<Rightarrow> attr_value option" where
  "stored_attr tbl post_id a = (case get_post tbl post_id of None \<Rightarrow> None | Some i \<Rightarrow> i a)"

subsection \<open>Example records\<close>

definition ex_album_post :: item where
  "ex_album_post =
     [''partitionKey'' \<mapsto> S ''post/p1'', ''sortKey'' \<mapsto> S ''-'',
      ''postId'' \<mapsto> S ''p1'', ''postedAt'' \<mapsto> S ''2020-01-01T10:00:00Z'',
      ''postedByUserId'' \<mapsto> S ''u1'', ''postType'' \<mapsto> S ''TEXT_ONLY'',
      ''postStatus'' \<mapsto> S ''PENDING'',
      ''gsiA2SortKey'' \<mapsto> S ''PENDING/2020-01-01T10:00:00Z'',
      ''albumId'' \<mapsto> S ''a1'', ''gsiK3PartitionKey'' \<mapsto> S ''post/a1'',
      ''gsiK3SortKey'' \<mapsto> N (- 1), ''text'' \<mapsto> S ''lore'']"

definition ex_plain_post :: item where
  "ex_plain_post =
     [''partitionKey'' \<mapsto> S ''post/p2'', ''sortKey'' \<mapsto> S ''-'',
      ''postId'' \<mapsto> S ''p2'', ''postedAt'' \<mapsto> S ''2020-01-02T10:00:00Z'',
      ''postedByUserId'' \<mapsto> S ''u1'', ''postType'' \<mapsto> S ''TEXT_ONLY'',
      ''postStatus'' \<mapsto> S ''PENDING'',
      ''gsiA2SortKey'' \<mapsto> S ''PENDING/2020-01-02T10:00:00Z'']"

definition ex_table :: table where
  "ex_table = [(post_pk ''p1'', ex_album_post), (post_pk ''p2'', ex_plain_post)]"

text \<open>The actions \<open>transact_set_album_id\<close> puts in its request when an album id is given.\<close>

definition album_actions :: "string \<Rightarrow> rat option \<Rightarrow> action list" where
  "album_actions a rank =
     [SET ''albumId'' (S a),
      SET ''gsiK3PartitionKey'' (S (''post/'' @ a)),
      SET ''gsiK3SortKey'' (N (case rank of Some r \<Rightarrow> r | None \<Rightarrow> - 1))]"

text \<open>
  Completing the post without an album: the request the builder returns and the table
  after the store has executed it.
\<close>

definition ex_plain_req :: transact where
  "ex_plain_req = Update \<lparr>
     Key = post_pk ''p2'',
     UpdateExpression =
       [SET ''postStatus'' (S ''COMPLETED''),
        SET ''gsiA2SortKey'' (S ''COMPLETED/2020-01-02T10:00:00Z''),
        SET ''gsiA3SortKey'' (S ''COMPLETED/TEXT_ONLY/2020-01-02T10:00:00Z'')],
     ConditionExpression = Some (attribute_exists ''partitionKey'') \<rparr>"

definition ex_table_completed :: table where
  "ex_table_completed =
     [(post_pk ''p1'', ex_album_post),
      (post_pk ''p2'', ex_plain_post
         (''postStatus'' \<mapsto> S ''COMPLETED'',
          ''gsiA2SortKey'' \<mapsto> S ''COMPLETED/2020-01-02T10:00:00Z'',
          ''gsiA3SortKey'' \<mapsto> S ''COMPLETED/TEXT_ONLY/2020-01-02T10:00:00Z''))]"

text \<open>A post with text and one tag, for the examples of the edit operation.\<close>

definition ex_text_post :: item where
  "ex_text_post =
     [''partitionKey'' \<mapsto> S ''post/p3'', ''sortKey'' \<mapsto> S ''-'',
      ''postId'' \<mapsto> S ''p3'', ''text'' \<mapsto> S ''over the @rainbow'',
      ''textTags'' \<mapsto> L [M [(''tag'', S ''@rainbow''), (''userId'', S ''u2'')]]]"

definition ex_text_table :: table where
  "ex_text_table = [(post_pk ''p3'', ex_text_post)]"

text \<open>The actions the multi-field edit sends to the store.\<close>

definition edit_actions ::
  "string option \<Rightarrow> attr_value list option \<Rightarrow> bool option \<Rightarrow> bool option \<Rightarrow> bool option \<Rightarrow>
     bool option \<Rightarrow> action list" where
  "edit_actions text text_tags cd ld sd vh =
     (case text of
        None \<Rightarrow> []
      | Some t \<Rightarrow>
          if t = [] then [REMOVE ''text'', REMOVE ''textTags'']
          else [SET ''text'' (S t)]
               @ (case text_tags of None \<Rightarrow> [] | Some tu \<Rightarrow> [SET ''textTags'' (L tu)]))
     @ bool_set ''commentsDisabled'' cd
     @ bool_set ''likesDisabled'' ld
     @ bool_set ''sharingDisabled'' sd
     @ bool_set ''verificationHidden'' vh"

subsection \<open>Counters\<close>

text \<open>
  Modelled from the spec: the decrement call with a fail-soft mode (section 4.1, counters,
  and section 7, decrement below zero). The file under \<open>src/\<close> holds only the transaction
  builders; the tests call \<open>decrement_comment_count(post_id, fail_soft=True)\<close> and expect
  \<open>None\<close> and one logged warning, and the conditional-check error without \<open>fail_soft\<close>.
  The call sends the builder's guarded \<open>ADD\<close> of \<open>-1\<close> to the store.
\<close>

datatype warning = FailedToDecrement string string

definition decrement_count ::
  "table \<Rightarrow> warning list \<Rightarrow> string \<Rightarrow> string \<Rightarrow> bool \<Rightarrow> error + (table \<times> warning list \<times> item option)" where
  "decrement_count tbl warnings post_id count_name fail_soft =
     (case update_item tbl \<lparr>
             Key = post_pk post_id,
             UpdateExpression = [ADD count_name (- 1)],
             ConditionExpression = Some (Cmp_gt count_name (N 0)) \<rparr> of
        Inl ConditionalCheckFailedException \<Rightarrow>
          if fail_soft then Inr (tbl, warnings @ [FailedToDecrement count_name post_id], None)
          else Inl ConditionalCheckFailedException
      | Inl e \<Rightarrow> Inl e
      | Inr (tbl', i) \<Rightarrow> Inr (tbl', warnings, Some i))"

text \<open>A stored counter is absent or a non-negative whole number.\<close>

definition is_count :: "attr_value option \<Rightarrow> bool" where
  "is_count v = (case v of None \<Rightarrow> True | Some (N x) \<Rightarrow> 0 \<le> x \<and> of_int \<lfloor>x\<rfloor> = x | Some _ \<Rightarrow> False)"

text \<open>The stored counter of a post is absent or zero.\<close>

definition no_count :: "table \<Rightarrow> string \<Rightarrow> string \<Rightarrow> bool" where
  "no_count tbl post_id a =
     (stored_attr tbl post_id a = None \<or> stored_attr tbl post_id a = Some (N 0))"

text \<open>The decrement requests the builders make for a post.\<close>

definition decrement_requests :: "string \<Rightarrow> transact list" where
  "decrement_requests post_id =
     [transact_decrement_flag_count post_id, transact_decrement_comment_count post_id]
     @ (case transact_decrement_like_count post_id ONYMOUSLY_LIKED of Inr t \<Rightarrow> [t] | Inl _ \<Rightarrow> [])
     @ (case transact_decrement_like_count post_id ANONYMOUSLY_LIKED of Inr t \<Rightarrow> [t] | Inl _ \<Rightarrow> [])"

text \<open>
  A caller that submits each request as a transaction of its own and goes on after a
  failure, the table then being as before.
\<close>

fun submit_each :: "table \<Rightarrow> transact list \<Rightarrow> table" where
  "submit_each tbl [] = tbl"
| "submit_each tbl (t # ts) =
     submit_each (case transact_write_items tbl [t] of Inl _ \<Rightarrow> tbl | Inr tbl' \<Rightarrow> tbl') ts"

text \<open>The shape the three decrement builders share.\<close>

definition guarded_decrement :: "string \<Rightarrow> string \<Rightarrow> update_req" where
  "guarded_decrement post_id a = \<lparr>
     Key = post_pk post_id,
     UpdateExpression = [ADD a (- 1)],
     ConditionExpression = Some (And (attribute_exists ''partitionKey'') (Cmp_gt a (N 0))) \<rparr>"

definition ex_counted_post :: item where
  "ex_counted_post =
     [''partitionKey'' \<mapsto> S ''post/p4'', ''sortKey'' \<mapsto> S ''-'',
      ''postId'' \<mapsto> S ''p4'', ''flagCount'' \<mapsto> N 1, ''commentCount'' \<mapsto> N 0]"

definition ex_counted_table :: table where
  "ex_counted_table = [(post_pk ''p4'', ex_counted_post)]"

subsection \<open>The checksum index\<close>




section \<open>Expiry: dates, times of day and the day index\<close>

text \<open>
  The expiry of a post is a UTC date-time. The code renders it three ways: as an ISO 8601
  string (\<open>to_iso8601_string\<close>, a library function taken here as a field of the value), as
  \<open>str\<close> of its date and as \<open>str\<close> of its time of day. The last two are Python's own
  \<open>isoformat\<close>: \<open>YYYY-MM-DD\<close>, and \<open>HH:MM:SS\<close> followed by a dot and six digits when the
  microsecond is not zero.
\<close>

record time_of_day =
  hour :: nat
  minute :: nat
  second :: nat
  microsecond :: nat

record date =
  year :: nat
  month :: nat
  day :: nat

record datetime =
  date_of :: date
  time_of :: time_of_day
  to_iso8601_string :: string

definition digit :: "nat \<Rightarrow> char" where
  "digit n = char_of (48 + n)"

fun pad :: "nat \<Rightarrow> nat \<Rightarrow> string" where
  "pad 0 n = []"
| "pad (Suc k) n = pad k (n div 10) @ [digit (n mod 10)]"

definition str_time :: "time_of_day \<Rightarrow> string" where
  "str_time t =
     pad 2 (hour t) @ '':'' @ pad 2 (minute t) @ '':'' @ pad 2 (second t)
     @ (if microsecond t = 0 then [] else ''.'' @ pad 6 (microsecond t))"

definition str_date :: "date \<Rightarrow> string" where
  "str_date d = pad 4 (year d) @ ''-'' @ pad 2 (month d) @ ''-'' @ pad 2 (day d)"

definition valid_time :: "time_of_day \<Rightarrow> bool" where
  "valid_time t = (hour t < 24 \<and> minute t < 60 \<and> second t < 60 \<and> microsecond t < 1000000)"

definition valid_date :: "date \<Rightarrow> bool" where
  "valid_date d = (1 \<le> year d \<and> year d \<le> 9999 \<and> 1 \<le> month d \<and> month d \<le> 12
                   \<and> 1 \<le> day d \<and> day d \<le> 31)"

definition time_us :: "time_of_day \<Rightarrow> nat" where
  "time_us t = ((hour t * 60 + minute t) * 60 + second t) * 1000000 + microsecond t"

definition hms :: "time_of_day \<Rightarrow> string" where
  "hms t = pad 2 (hour t) @ '':'' @ pad 2 (minute t) @ '':'' @ pad 2 (second t)"

definition frac :: "nat \<Rightarrow> string" where
  "frac us = (if us = 0 then [] else ''.'' @ pad 6 us)"

definition set_expires_at :: "table \<Rightarrow> item \<Rightarrow> datetime \<Rightarrow> error + (table \<times> item)" where
  "set_expires_at tbl post_item expires_at =
     (let expires_at_str = to_iso8601_string expires_at in
      and_then (getitem_str post_item ''postId'') (\<lambda>post_id.
      and_then (getitem_str post_item ''postedByUserId'') (\<lambda>posted_by.
      and_then (getitem_str post_item ''postStatus'') (\<lambda>post_status.
        update_item tbl \<lparr>
          Key = post_pk post_id,
          UpdateExpression =
            [SET ''expiresAt'' (S expires_at_str),
             SET ''gsiA1PartitionKey'' (S (''post/'' @ posted_by)),
             SET ''gsiA1SortKey'' (S (post_status @ ''/'' @ expires_at_str)),
             SET ''gsiK1PartitionKey'' (S (''post/'' @ str_date (date_of expires_at))),
             SET ''gsiK1SortKey'' (S (str_time (time_of expires_at)))],
          ConditionExpression = Some (Cmp_eq ''postStatus'' (S post_status)) \<rparr>))))"


text \<open>
  The expired-post query of one day. A time object is always true in Python 3, so
  \<open>if cut_off_time\<close> asks whether a cut-off was given.
\<close>

definition generate_expired_post_pks_by_day ::
  "table \<Rightarrow> date \<Rightarrow> time_of_day option \<Rightarrow> item list" where
  "generate_expired_post_pks_by_day tbl date cut_off_time =
     map (project [''partitionKey'', ''sortKey''])
       (generate_all_query tbl ''gsiK1PartitionKey'' ''gsiK1SortKey'' (''post/'' @ str_date date)
          (case cut_off_time of None \<Rightarrow> [] | Some t \<Rightarrow> [\<lambda>s. s < str_time t])
          (\<lambda>i. True))"

text \<open>
  The expiry of the records, as the day index should reflect it: a record with no expiry
  has no key of the day index, a record expiring on day \<open>d\<close> at time \<open>t\<close> has the keys the
  code writes for them. Every record also carries its own primary key.
\<close>

definition day_entry_in_sync :: "(date \<times> time_of_day) option \<Rightarrow> pkey \<times> item \<Rightarrow> bool" where
  "day_entry_in_sync ex e =
     (snd e ''partitionKey'' = Some (S (fst (fst e))) \<and>
      snd e ''sortKey'' = Some (S (snd (fst e))) \<and>
      (case ex of
         None \<Rightarrow> snd e ''gsiK1PartitionKey'' = None \<and> snd e ''gsiK1SortKey'' = None
       | Some (d, t) \<Rightarrow>
           valid_date d \<and> valid_time t \<and>
           snd e ''gsiK1PartitionKey'' = Some (S (''post/'' @ str_date d)) \<and>
           snd e ''gsiK1SortKey'' = Some (S (str_time t))))"

text \<open>The record expires on day \<open>D\<close>, strictly before the cut-off when one is given.\<close>

definition expires_on_before ::
  "date \<Rightarrow> time_of_day option \<Rightarrow> (date \<times> time_of_day) option \<Rightarrow> bool" where
  "expires_on_before D cut_off_time ex =
     (case ex of
        None \<Rightarrow> False
      | Some (d, t) \<Rightarrow>
          d = D \<and> (case cut_off_time of None \<Rightarrow> True | Some T \<Rightarrow> time_us t < time_us T))"

definition expiry_time_us :: "(date \<times> time_of_day) option \<Rightarrow> nat" where
  "expiry_time_us ex = (case ex of None \<Rightarrow> 0 | Some (d, t) \<Rightarrow> time_us t)"

text \<open>Two stories expiring on the same day, at ten and at sixteen hours.\<close>

definition ex_day :: date where
  "ex_day = \<lparr>year = 2020, month = 3, day = 5\<rparr>"

definition ex_ten :: time_of_day where
  "ex_ten = \<lparr>hour = 10, minute = 0, second = 0, microsecond = 0\<rparr>"

definition ex_noon :: time_of_day where
  "ex_noon = \<lparr>hour = 12, minute = 0, second = 0, microsecond = 0\<rparr>"

definition ex_sixteen :: time_of_day where
  "ex_sixteen = \<lparr>hour = 16, minute = 0, second = 0, microsecond = 0\<rparr>"

definition ex_story :: "string \<Rightarrow> time_of_day \<Rightarrow> pkey \<times> item" where
  "ex_story post_id t =
     (post_pk post_id,
      [''partitionKey'' \<mapsto> S (''post/'' @ post_id), ''sortKey'' \<mapsto> S ''-'',
       ''postId'' \<mapsto> S post_id,
       ''gsiK1PartitionKey'' \<mapsto> S (''post/'' @ str_date ex_day),
       ''gsiK1SortKey'' \<mapsto> S (str_time t)])"

definition ex_story_table :: table where
  "ex_story_table = [ex_story ''s2'' ex_sixteen, ex_story ''s1'' ex_ten]"

definition ex_expiry :: "pkey \<Rightarrow> (date \<times> time_of_day) option" where
  "ex_expiry k =
     (if k = post_pk ''s1'' then Some (ex_day, ex_ten)
      else if k = post_pk ''s2'' then Some (ex_day, ex_sixteen)
      else None)"

section \<open>The followed-first-story pointer\<close>















definition story_in_sync :: "item \<Rightarrow> bool" where
  "story_in_sync i =
     (case str_attr i ''expiresAt'' of
        None \<Rightarrow> i ''gsiA1PartitionKey'' = None \<and> i ''gsiA1SortKey'' = None
      | Some e \<Rightarrow>
          (case (str_attr i ''postedByUserId'', str_attr i ''postStatus'') of
             (Some ow, Some st) \<Rightarrow>
               CHR ''/'' \<notin> set st \<and>
               i ''gsiA1PartitionKey'' = Some (S (''post/'' @ ow)) \<and>
               i ''gsiA1SortKey'' = Some (S (st @ ''/'' @ e))
           | _ \<Rightarrow> False))"












section \<open>Validation of the album rank in a status change\<close>

lemma getitem_str_not_assertion: "getitem_str post_item k \<noteq> Inl AssertionError"
  by (simp add: getitem_str_def split: option.split attr_value.split)

lemma and_then_Inl:
  "and_then m f = Inl e \<longleftrightarrow> m = Inl e \<or> (\<exists>x. m = Inr x \<and> f x = Inl e)"
  by (cases m) (simp_all add: and_then_def)

lemma and_then_Inr:
  "and_then m f = Inr y \<longleftrightarrow> (\<exists>x. m = Inr x \<and> f x = Inr y)"
  by (cases m) (simp_all add: and_then_def)

text \<open>
  C2. \<open>transact_set_post_status\<close> raises its assertion error exactly when the presence of
  the album rank differs from "the post has a (non-empty) album id and the new status is
  COMPLETED". The function only builds a request: it takes no table and returns none, so
  the error arises before any store operation and nothing is written.
\<close>

theorem set_post_status_rank_validation:
  "transact_set_post_status post_item status original_post_id album_rank = Inl AssertionError
     \<longleftrightarrow> ((album_rank \<noteq> None) \<noteq> (truthy (post_item ''albumId'') \<and> status = COMPLETED))"
  unfolding transact_set_post_status_def Let_def
  by (simp add: and_then_Inl getitem_str_not_assertion)

theorem set_post_status_rank_validation_witness:
  "transact_set_post_status ex_album_post COMPLETED None None = Inl AssertionError \<and>
   transact_set_post_status ex_album_post ''ARCHIVED'' None (Some (1 / 3)) = Inl AssertionError \<and>
   transact_set_post_status ex_plain_post COMPLETED None (Some (1 / 2)) = Inl AssertionError \<and>
   transact_set_post_status ex_album_post COMPLETED None (Some (1 / 2)) \<noteq> Inl AssertionError \<and>
   transact_set_post_status ex_plain_post COMPLETED None None \<noteq> Inl AssertionError"
  using set_post_status_rank_validation[of ex_album_post COMPLETED None None]
        set_post_status_rank_validation[of ex_album_post "''ARCHIVED''" None "Some (1 / 3)"]
        set_post_status_rank_validation[of ex_plain_post COMPLETED None "Some (1 / 2)"]
        set_post_status_rank_validation[of ex_album_post COMPLETED None "Some (1 / 2)"]
        set_post_status_rank_validation[of ex_plain_post COMPLETED None None]
  by (simp add: ex_album_post_def ex_plain_post_def COMPLETED_def)

section \<open>Updates applied by the store\<close>

lemma apply_action_frame:
  "apply_action act i = Some i' \<Longrightarrow> a \<noteq> action_attr act \<Longrightarrow> i' a = i a"
  by (cases act) (auto split: option.splits attr_value.splits)

lemma apply_actions_frame:
  "apply_actions acts i = Some i' \<Longrightarrow> a \<notin> action_attr ` set acts \<Longrightarrow> i' a = i a"
proof (induction acts arbitrary: i)
  case Nil
  then show ?case by simp
next
  case (Cons act acts)
  then obtain j where j: "apply_action act i = Some j" "apply_actions acts j = Some i'"
    by (auto split: option.splits)
  from Cons.prems(2) have "a \<noteq> action_attr act" "a \<notin> action_attr ` set acts" by auto
  with j Cons.IH[of j] apply_action_frame[of act i j a] show ?case by simp
qed

lemma apply_actions_append:
  "apply_actions (xs @ ys) i = (case apply_actions xs i of None \<Rightarrow> None | Some j \<Rightarrow> apply_actions ys j)"
  by (induction xs arbitrary: i) (auto split: option.splits)

lemma run_transacts_single:
  "transact_write_items tbl [Update u] =
     (case run_update tbl u of
        Rejected \<Rightarrow> Inl ValidationException
      | ConditionFailed \<Rightarrow> Inl TransactionCanceledException
      | Updated tbl' i \<Rightarrow> Inr tbl')"
  by (simp add: transact_write_items_def split: outcome.splits)

lemma run_update_Updated:
  "run_update tbl u = Updated tbl' i' \<longleftrightarrow>
     (case ConditionExpression u of None \<Rightarrow> True | Some c \<Rightarrow> holds (map_of tbl (Key u)) c) \<and>
     apply_actions (UpdateExpression u) (base_item tbl (Key u)) = Some i' \<and>
     tbl' = AList.update (Key u) i' tbl"
  by (auto simp: run_update_def Let_def split: option.splits)

lemma holds_exists_Some:
  "holds cur (attribute_exists a) \<Longrightarrow> \<exists>i. cur = Some i \<and> i a \<noteq> None"
  by (cases cur) auto

lemma update_existing_keys:
  "map_of tbl k = Some i \<Longrightarrow> map fst (AList.update k v tbl) = map fst tbl"
  by (induction tbl) (auto split: if_splits)
lemma getitem_str_Inr: "getitem_str i k = Inr s \<longleftrightarrow> i k = Some (S s)"
  by (simp add: getitem_str_def split: option.split attr_value.split)

lemma set_post_status_Inr:
  assumes "transact_set_post_status post_item status opi rank = Inr t"
  shows "\<exists>posted_at post_type post_id.
           post_item ''postedAt'' = Some (S posted_at) \<and>
           post_item ''postType'' = Some (S post_type) \<and>
           post_item ''postId'' = Some (S post_id) \<and>
           ((rank \<noteq> None) = (truthy (post_item ''albumId'') \<and> status = COMPLETED)) \<and>
           (post_item ''expiresAt'' = None \<or> (\<exists>e. post_item ''expiresAt'' = Some (S e))) \<and>
           t = Update \<lparr>Key = post_pk post_id,
                 UpdateExpression = status_actions post_item status opi rank posted_at post_type,
                 ConditionExpression = Some (attribute_exists ''partitionKey'')\<rparr>"
  using assms unfolding transact_set_post_status_def Let_def status_actions_def
  by (auto simp: and_then_Inr getitem_str_Inr split: if_splits)

lemma apply_actions_set_value:
  "apply_actions acts i = Some i' \<Longrightarrow> distinct (map action_attr acts) \<Longrightarrow>
     SET a v \<in> set acts \<Longrightarrow> i' a = Some v"
proof (induction acts arbitrary: i)
  case Nil
  then show ?case by simp
next
  case (Cons act acts)
  then obtain j where j: "apply_action act i = Some j" "apply_actions acts j = Some i'"
    by (auto split: option.splits)
  show ?case
  proof (cases "act = SET a v")
    case True
    with Cons.prems(2) have "a \<notin> action_attr ` set acts" by auto
    with j(2) have "i' a = j a" by (rule apply_actions_frame)
    with True j(1) show ?thesis by auto
  next
    case False
    with Cons.prems have "SET a v \<in> set acts" "distinct (map action_attr acts)" by auto
    with Cons.IH[OF j(2)] show ?thesis by simp
  qed
qed

lemma status_actions_distinct:
  "distinct (map action_attr (status_actions post_item status opi rank posted_at post_type))"
  by (simp add: status_actions_def split: option.split attr_value.split)

lemma status_actions_attrs:
  "action_attr ` set (status_actions post_item status opi rank posted_at post_type)
     \<subseteq> status_touched post_item opi"
  by (auto simp: status_actions_def status_touched_def split: option.splits attr_value.splits if_splits)

lemma set_post_status_run:
  assumes built: "transact_set_post_status post_item status opi rank = Inr t"
      and ran: "transact_write_items tbl [t] = Inr tbl'"
  shows "\<exists>posted_at post_type post_id old new.
           post_item ''postedAt'' = Some (S posted_at) \<and>
           post_item ''postType'' = Some (S post_type) \<and>
           post_item ''postId'' = Some (S post_id) \<and>
           ((rank \<noteq> None) = (truthy (post_item ''albumId'') \<and> status = COMPLETED)) \<and>
           map_of tbl (post_pk post_id) = Some old \<and>
           apply_actions (status_actions post_item status opi rank posted_at post_type) old = Some new \<and>
           tbl' = AList.update (post_pk post_id) new tbl"
proof -
  from set_post_status_Inr[OF built] obtain posted_at post_type post_id where
    p: "post_item ''postedAt'' = Some (S posted_at)" "post_item ''postType'' = Some (S post_type)"
       "post_item ''postId'' = Some (S post_id)"
       "(rank \<noteq> None) = (truthy (post_item ''albumId'') \<and> status = COMPLETED)"
    and t: "t = Update \<lparr>Key = post_pk post_id,
                 UpdateExpression = status_actions post_item status opi rank posted_at post_type,
                 ConditionExpression = Some (attribute_exists ''partitionKey'')\<rparr>"
    by blast
  let ?u = "\<lparr>Key = post_pk post_id,
                 UpdateExpression = status_actions post_item status opi rank posted_at post_type,
                 ConditionExpression = Some (attribute_exists ''partitionKey'')\<rparr>"
  from ran t obtain new where r: "run_update tbl ?u = Updated tbl' new"
    by (auto simp: run_transacts_single split: outcome.splits)
  then obtain old where old: "map_of tbl (post_pk post_id) = Some old"
    and a: "apply_actions (status_actions post_item status opi rank posted_at post_type) old = Some new"
    and u: "tbl' = AList.update (post_pk post_id) new tbl"
    by (auto simp: run_update_def base_item_def Let_def split: if_splits option.splits)
  with p old u show ?thesis by blast
qed

lemma set_post_status_succeeds:
  assumes built: "transact_set_post_status post_item status opi rank = Inr t"
      and id: "post_item ''postId'' = Some (S post_id)"
      and old: "map_of tbl (post_pk post_id) = Some old" "old ''partitionKey'' \<noteq> None"
  shows "\<exists>tbl'. transact_write_items tbl [t] = Inr tbl'"
proof -
  from set_post_status_Inr[OF built] id obtain posted_at post_type where
    t: "t = Update \<lparr>Key = post_pk post_id,
                 UpdateExpression = status_actions post_item status opi rank posted_at post_type,
                 ConditionExpression = Some (attribute_exists ''partitionKey'')\<rparr>"
    by auto
  have "\<exists>new. apply_actions (status_actions post_item status opi rank posted_at post_type) old = Some new"
    by (simp add: status_actions_def apply_actions_append split: option.split attr_value.split)
  with t old show ?thesis
    by (auto simp: run_transacts_single run_update_def base_item_def)
qed

lemma ex_album_complete_built:
  "\<exists>t. transact_set_post_status ex_album_post COMPLETED (Some ''p0'') (Some (1 / 2)) = Inr t"
  by (simp add: transact_set_post_status_def ex_album_post_def and_then_def getitem_str_def)

section \<open>Frame of a status change\<close>

text \<open>
  C10. A successful \<open>transact_set_post_status\<close>, executed by the store, changes in the
  post's record only \<open>postStatus\<close>, \<open>gsiA2SortKey\<close> and \<open>gsiA3SortKey\<close>, plus
  \<open>originalPostId\<close> when one is supplied, \<open>gsiK3SortKey\<close> when the post item has an album
  id and \<open>gsiA1SortKey\<close> when it has \<open>expiresAt\<close>. Every other attribute of the record
  keeps its value, every other record is untouched, and no record is created.
\<close>

theorem set_post_status_frame:
  assumes built: "transact_set_post_status post_item status original_post_id album_rank = Inr t"
      and ran: "transact_write_items tbl [t] = Inr tbl'"
  shows "\<exists>post_id old new.
           post_item ''postId'' = Some (S post_id) \<and>
           get_post tbl post_id = Some old \<and> get_post tbl' post_id = Some new \<and>
           (\<forall>a. a \<notin> status_touched post_item original_post_id \<longrightarrow> new a = old a) \<and>
           (\<forall>k. k \<noteq> post_pk post_id \<longrightarrow> map_of tbl' k = map_of tbl k) \<and>
           map fst tbl' = map fst tbl"
proof -
  from set_post_status_run[OF built ran] obtain posted_at post_type post_id old new where
    p: "post_item ''postId'' = Some (S post_id)"
    and old: "map_of tbl (post_pk post_id) = Some old"
    and a: "apply_actions (status_actions post_item status original_post_id album_rank posted_at post_type) old = Some new"
    and u: "tbl' = AList.update (post_pk post_id) new tbl"
    by blast
  have frame: "\<forall>a. a \<notin> status_touched post_item original_post_id \<longrightarrow> new a = old a"
  proof (intro allI impI)
    fix a assume "a \<notin> status_touched post_item original_post_id"
    with status_actions_attrs[of post_item status original_post_id album_rank posted_at post_type]
    have "a \<notin> action_attr ` set (status_actions post_item status original_post_id album_rank posted_at post_type)"
      by blast
    with a show "new a = old a" by (rule apply_actions_frame)
  qed
  have others: "\<forall>k. k \<noteq> post_pk post_id \<longrightarrow> map_of tbl' k = map_of tbl k"
    using u by (simp add: update_conv')
  have keys: "map fst tbl' = map fst tbl"
    using u old by (simp add: update_existing_keys)
  have new: "get_post tbl' post_id = Some new"
    using u by (simp add: get_post_def update_conv')
  from p old frame others keys new show ?thesis
    unfolding get_post_def by blast
qed

theorem set_post_status_frame_witness:
  "\<exists>t tbl'. transact_set_post_status ex_album_post COMPLETED (Some ''p0'') (Some (1 / 2)) = Inr t \<and>
     transact_write_items ex_table [t] = Inr tbl' \<and>
     (\<exists>post_id old new.
           ex_album_post ''postId'' = Some (S post_id) \<and>
           get_post ex_table post_id = Some old \<and> get_post tbl' post_id = Some new \<and>
           (\<forall>a. a \<notin> status_touched ex_album_post (Some ''p0'') \<longrightarrow> new a = old a) \<and>
           (\<forall>k. k \<noteq> post_pk post_id \<longrightarrow> map_of tbl' k = map_of ex_table k) \<and>
           map fst tbl' = map fst ex_table)"
proof -
  obtain t where t: "transact_set_post_status ex_album_post COMPLETED (Some ''p0'') (Some (1 / 2)) = Inr t"
    using ex_album_complete_built by blast
  have "\<exists>tbl'. transact_write_items ex_table [t] = Inr tbl'"
    by (rule set_post_status_succeeds[OF t, of "''p1''" _ ex_album_post])
       (simp_all add: ex_album_post_def ex_table_def post_pk_def)
  then obtain tbl' where r: "transact_write_items ex_table [t] = Inr tbl'" by blast
  from set_post_status_frame[OF t r] t r show ?thesis by blast
qed

section \<open>Index keys after a status change or an album change\<close>

lemma set_album_id_Inr:
  assumes "transact_set_album_id post_item album_id rank = Inr t"
  shows "\<exists>post_id st.
           post_item ''postId'' = Some (S post_id) \<and>
           post_item ''postStatus'' = Some (S st) \<and>
           (case album_id of
              Some a \<Rightarrow>
                if a \<noteq> [] then
                  (rank \<noteq> None) = (st = COMPLETED) \<and>
                  t = Update \<lparr>Key = post_pk post_id, UpdateExpression = album_actions a rank,
                        ConditionExpression = Some (And (attribute_exists ''partitionKey'')
                                                        (Cmp_eq ''postStatus'' (S st)))\<rparr>
                else rank = None \<and> t = remove_album_req post_id
            | None \<Rightarrow> rank = None \<and> t = remove_album_req post_id)"
  using assms unfolding transact_set_album_id_def Let_def album_actions_def
  by (auto simp: and_then_Inr getitem_str_Inr split: if_splits option.splits)

lemma run_single_Inr:
  assumes "transact_write_items tbl [Update u] = Inr tbl'"
  shows "\<exists>new. (case ConditionExpression u of None \<Rightarrow> True | Some c \<Rightarrow> holds (map_of tbl (Key u)) c) \<and>
           apply_actions (UpdateExpression u) (base_item tbl (Key u)) = Some new \<and>
           tbl' = AList.update (Key u) new tbl"
  using assms
  by (auto simp: run_transacts_single run_update_def Let_def split: if_splits option.splits)

lemma set_album_run_given:
  assumes ran: "transact_write_items tbl
            [Update \<lparr>Key = post_pk post_id, UpdateExpression = album_actions a rank,
                     ConditionExpression = Some (And (attribute_exists ''partitionKey'')
                                                     (Cmp_eq ''postStatus'' (S st)))\<rparr>] = Inr tbl'"
  shows "\<exists>old new. get_post tbl post_id = Some old \<and> get_post tbl' post_id = Some new \<and>
           old ''postStatus'' = Some (S st) \<and>
           new = old(''albumId'' \<mapsto> S a, ''gsiK3PartitionKey'' \<mapsto> S (''post/'' @ a),
                     ''gsiK3SortKey'' \<mapsto> N (case rank of Some r \<Rightarrow> r | None \<Rightarrow> - 1))"
proof -
  from run_single_Inr[OF ran] obtain new where
    h: "holds (map_of tbl (post_pk post_id))
          (And (attribute_exists ''partitionKey'') (Cmp_eq ''postStatus'' (S st)))"
    and a: "apply_actions (album_actions a rank) (base_item tbl (post_pk post_id)) = Some new"
    and u: "tbl' = AList.update (post_pk post_id) new tbl"
    by auto
  from h obtain old where old: "map_of tbl (post_pk post_id) = Some old" "old ''postStatus'' = Some (S st)"
    by (cases "map_of tbl (post_pk post_id)") auto
  from a old have "new = old(''albumId'' \<mapsto> S a, ''gsiK3PartitionKey'' \<mapsto> S (''post/'' @ a),
                     ''gsiK3SortKey'' \<mapsto> N (case rank of Some r \<Rightarrow> r | None \<Rightarrow> - 1))"
    by (simp add: album_actions_def base_item_def)
  with old u show ?thesis by (simp add: get_post_def update_conv')
qed

lemma set_album_run_removed:
  assumes ran: "transact_write_items tbl [remove_album_req post_id] = Inr tbl'"
  shows "\<exists>old new. get_post tbl post_id = Some old \<and> get_post tbl' post_id = Some new \<and>
           new = old(''albumId'' := None, ''gsiK3PartitionKey'' := None, ''gsiK3SortKey'' := None)"
proof -
  from run_single_Inr[OF ran[unfolded remove_album_req_def]] obtain new where
    h: "holds (map_of tbl (post_pk post_id)) (attribute_exists ''partitionKey'')"
    and a: "apply_actions [REMOVE ''albumId'', REMOVE ''gsiK3PartitionKey'', REMOVE ''gsiK3SortKey'']
             (base_item tbl (post_pk post_id)) = Some new"
    and u: "tbl' = AList.update (post_pk post_id) new tbl"
    by auto
  from h obtain old where old: "map_of tbl (post_pk post_id) = Some old"
    by (cases "map_of tbl (post_pk post_id)") auto
  from a old have "new = old(''albumId'' := None, ''gsiK3PartitionKey'' := None, ''gsiK3SortKey'' := None)"
    by (simp add: base_item_def)
  with old u show ?thesis by (simp add: get_post_def update_conv')
qed

lemma set_post_status_values:
  assumes built: "transact_set_post_status post_item status opi rank = Inr t"
      and ran: "transact_write_items tbl [t] = Inr tbl'"
  shows "\<exists>post_id posted_at old new.
           post_item ''postId'' = Some (S post_id) \<and>
           post_item ''postedAt'' = Some (S posted_at) \<and>
           get_post tbl post_id = Some old \<and> get_post tbl' post_id = Some new \<and>
           new ''postStatus'' = Some (S status) \<and>
           new ''gsiA2SortKey'' = Some (S (status @ ''/'' @ posted_at)) \<and>
           (if truthy (post_item ''albumId'')
            then new ''gsiK3SortKey'' =
                   (if status = COMPLETED then map_option N rank else Some (N (- 1))) \<and>
                 (status = COMPLETED) = (rank \<noteq> None)
            else new ''gsiK3SortKey'' = old ''gsiK3SortKey'' \<and> rank = None)"
proof -
  from set_post_status_run[OF built ran] obtain posted_at post_type post_id old new where
    p: "post_item ''postId'' = Some (S post_id)" "post_item ''postedAt'' = Some (S posted_at)"
    and rk: "(rank \<noteq> None) = (truthy (post_item ''albumId'') \<and> status = COMPLETED)"
    and old: "map_of tbl (post_pk post_id) = Some old"
    and a: "apply_actions (status_actions post_item status opi rank posted_at post_type) old = Some new"
    and u: "tbl' = AList.update (post_pk post_id) new tbl"
    by blast
  note d = status_actions_distinct[of post_item status opi rank posted_at post_type]
  have s1: "new ''postStatus'' = Some (S status)"
    by (rule apply_actions_set_value[OF a d]) (simp add: status_actions_def)
  have s2: "new ''gsiA2SortKey'' = Some (S (status @ ''/'' @ posted_at))"
    by (rule apply_actions_set_value[OF a d]) (simp add: status_actions_def)
  have s3: "new ''gsiK3SortKey'' = Some (N (case rank of Some r \<Rightarrow> r | None \<Rightarrow> - 1))"
    if "truthy (post_item ''albumId'')"
    by (rule apply_actions_set_value[OF a d]) (simp add: status_actions_def that)
  have s4: "new ''gsiK3SortKey'' = old ''gsiK3SortKey''" if "\<not> truthy (post_item ''albumId'')"
    by (rule apply_actions_frame[OF a])
       (auto simp: status_actions_def that split: option.splits attr_value.splits)
  have new: "get_post tbl' post_id = Some new"
    using u by (simp add: get_post_def update_conv')
  have k3: "if truthy (post_item ''albumId'')
            then new ''gsiK3SortKey'' =
                   (if status = COMPLETED then map_option N rank else Some (N (- 1))) \<and>
                 (status = COMPLETED) = (rank \<noteq> None)
            else new ''gsiK3SortKey'' = old ''gsiK3SortKey'' \<and> rank = None"
    using s3 s4 rk by (cases rank) auto
  from p old new s1 s2 k3 show ?thesis unfolding get_post_def by blast
qed

lemma set_album_id_values:
  assumes built: "transact_set_album_id post_item album_id rank = Inr t"
      and ran: "transact_write_items tbl [t] = Inr tbl'"
  shows "\<exists>post_id st old new.
           post_item ''postId'' = Some (S post_id) \<and>
           post_item ''postStatus'' = Some (S st) \<and>
           get_post tbl post_id = Some old \<and> get_post tbl' post_id = Some new \<and>
           new ''postStatus'' = old ''postStatus'' \<and>
           new ''gsiA2SortKey'' = old ''gsiA2SortKey'' \<and>
           (if album_id \<noteq> None \<and> album_id \<noteq> Some []
            then old ''postStatus'' = Some (S st) \<and>
                 new ''albumId'' = map_option S album_id \<and>
                 new ''gsiK3PartitionKey'' = map_option (\<lambda>a. S (''post/'' @ a)) album_id \<and>
                 new ''gsiK3SortKey'' =
                   (if st = COMPLETED then map_option N rank else Some (N (- 1))) \<and>
                 (st = COMPLETED) = (rank \<noteq> None)
            else new ''albumId'' = None \<and> new ''gsiK3PartitionKey'' = None \<and>
                 new ''gsiK3SortKey'' = None \<and> rank = None)"
proof -
  from set_album_id_Inr[OF built] obtain post_id st where
    p: "post_item ''postId'' = Some (S post_id)" "post_item ''postStatus'' = Some (S st)"
    and c: "case album_id of
              Some a \<Rightarrow>
                if a \<noteq> [] then
                  (rank \<noteq> None) = (st = COMPLETED) \<and>
                  t = Update \<lparr>Key = post_pk post_id, UpdateExpression = album_actions a rank,
                        ConditionExpression = Some (And (attribute_exists ''partitionKey'')
                                                        (Cmp_eq ''postStatus'' (S st)))\<rparr>
                else rank = None \<and> t = remove_album_req post_id
            | None \<Rightarrow> rank = None \<and> t = remove_album_req post_id"
    by blast
  show ?thesis
  proof (cases "album_id \<noteq> None \<and> album_id \<noteq> Some []")
    case True
    then obtain a where a: "album_id = Some a" "a \<noteq> []" by auto
    with c have rk: "(rank \<noteq> None) = (st = COMPLETED)"
      and t: "t = Update \<lparr>Key = post_pk post_id, UpdateExpression = album_actions a rank,
                        ConditionExpression = Some (And (attribute_exists ''partitionKey'')
                                                        (Cmp_eq ''postStatus'' (S st)))\<rparr>"
      by simp_all
    from set_album_run_given[OF ran[unfolded t]] obtain old new where
      o: "get_post tbl post_id = Some old" "get_post tbl' post_id = Some new"
         "old ''postStatus'' = Some (S st)"
         "new = old(''albumId'' \<mapsto> S a, ''gsiK3PartitionKey'' \<mapsto> S (''post/'' @ a),
                     ''gsiK3SortKey'' \<mapsto> N (case rank of Some r \<Rightarrow> r | None \<Rightarrow> - 1))"
      by blast
    have "new ''gsiK3SortKey'' = (if st = COMPLETED then map_option N rank else Some (N (- 1)))"
      using o(4) rk by (cases rank) auto
    with p o a rk show ?thesis by (intro exI[of _ post_id] exI[of _ st] exI[of _ old] exI[of _ new]) simp
  next
    case False
    with c have rk: "rank = None" and t: "t = remove_album_req post_id"
      by (auto split: option.splits if_splits)
    from set_album_run_removed[OF ran[unfolded t]] obtain old new where
      o: "get_post tbl post_id = Some old" "get_post tbl' post_id = Some new"
         "new = old(''albumId'' := None, ''gsiK3PartitionKey'' := None, ''gsiK3SortKey'' := None)"
      by blast
    with p rk False show ?thesis
      by (intro exI[of _ post_id] exI[of _ st] exI[of _ old] exI[of _ new]) simp
  qed
qed

lemma ex_set_album_built:
  "\<exists>t. transact_set_album_id ex_plain_post (Some ''a7'') None = Inr t \<and>
       (\<exists>tbl'. transact_write_items ex_table [t] = Inr tbl')"
  by (simp add: transact_set_album_id_def ex_plain_post_def and_then_def getitem_str_def
        COMPLETED_def run_transacts_single run_update_def base_item_def ex_table_def post_pk_def)

text \<open>
  C1, as stated, asks for the album-rank entry to be present with the sentinel \<open>-1\<close>
  whenever the album id is absent. Completing a post that has no album leaves the record
  without any \<open>gsiK3SortKey\<close>: the builder writes that key only under \<open>if album_id\<close>.
\<close>

theorem album_rank_entry_absent_counterexample:
  "transact_set_post_status ex_plain_post COMPLETED None None = Inr ex_plain_req \<and>
   transact_write_items ex_table [ex_plain_req] = Inr ex_table_completed \<and>
   stored_attr ex_table_completed ''p2'' ''postStatus'' = Some (S COMPLETED) \<and>
   stored_attr ex_table_completed ''p2'' ''albumId'' = None \<and>
   stored_attr ex_table_completed ''p2'' ''gsiK3SortKey'' \<noteq> Some (N (- 1))"
proof -
  have b: "transact_set_post_status ex_plain_post COMPLETED None None = Inr ex_plain_req"
    by (simp add: transact_set_post_status_def ex_plain_post_def ex_plain_req_def and_then_def
          getitem_str_def COMPLETED_def)
  have r: "transact_write_items ex_table [ex_plain_req] = Inr ex_table_completed"
    by (simp add: run_transacts_single run_update_def base_item_def ex_table_def ex_plain_req_def
          ex_table_completed_def post_pk_def ex_plain_post_def)
  have s: "stored_attr ex_table_completed ''p2'' ''postStatus'' = Some (S COMPLETED)"
      "stored_attr ex_table_completed ''p2'' ''albumId'' = None"
      "stored_attr ex_table_completed ''p2'' ''gsiK3SortKey'' \<noteq> Some (N (- 1))"
    by (simp_all add: stored_attr_def get_post_def ex_table_completed_def post_pk_def
          ex_plain_post_def COMPLETED_def)
  from b r s show ?thesis by simp
qed

text \<open>
  C1, amended. After a successful status change the record has the new \<open>postStatus\<close> and
  the owner-status sort key \<open>gsiA2SortKey\<close> is the new status, a slash and \<open>postedAt\<close>. If
  the post item has an album id, \<open>gsiK3SortKey\<close> is the supplied rank when the new status is
  COMPLETED (a rank is then always supplied) and \<open>-1\<close> otherwise; if it has none,
  \<open>gsiK3SortKey\<close> is left as it was. After a successful album change \<open>postStatus\<close> and
  \<open>gsiA2SortKey\<close> are unchanged; with an album id given, the stored status is the post
  item's, \<open>albumId\<close> and \<open>gsiK3PartitionKey\<close> are set and \<open>gsiK3SortKey\<close> is the supplied
  rank when that status is COMPLETED and \<open>-1\<close> otherwise; with none given, \<open>albumId\<close>,
  \<open>gsiK3PartitionKey\<close> and \<open>gsiK3SortKey\<close> are removed.
\<close>

theorem index_keys_after_set:
  "(transact_set_post_status post_item status original_post_id album_rank = Inr t \<and>
    transact_write_items tbl [t] = Inr tbl' \<longrightarrow>
      (\<exists>post_id posted_at old new.
           post_item ''postId'' = Some (S post_id) \<and>
           post_item ''postedAt'' = Some (S posted_at) \<and>
           get_post tbl post_id = Some old \<and> get_post tbl' post_id = Some new \<and>
           new ''postStatus'' = Some (S status) \<and>
           new ''gsiA2SortKey'' = Some (S (status @ ''/'' @ posted_at)) \<and>
           (if truthy (post_item ''albumId'')
            then new ''gsiK3SortKey'' =
                   (if status = COMPLETED then map_option N album_rank else Some (N (- 1))) \<and>
                 (status = COMPLETED) = (album_rank \<noteq> None)
            else new ''gsiK3SortKey'' = old ''gsiK3SortKey'' \<and> album_rank = None)))
   \<and>
   (transact_set_album_id post_item2 album_id album_rank2 = Inr t2 \<and>
    transact_write_items tbl2 [t2] = Inr tbl2' \<longrightarrow>
      (\<exists>post_id st old new.
           post_item2 ''postId'' = Some (S post_id) \<and>
           post_item2 ''postStatus'' = Some (S st) \<and>
           get_post tbl2 post_id = Some old \<and> get_post tbl2' post_id = Some new \<and>
           new ''postStatus'' = old ''postStatus'' \<and>
           new ''gsiA2SortKey'' = old ''gsiA2SortKey'' \<and>
           (if album_id \<noteq> None \<and> album_id \<noteq> Some []
            then old ''postStatus'' = Some (S st) \<and>
                 new ''albumId'' = map_option S album_id \<and>
                 new ''gsiK3PartitionKey'' = map_option (\<lambda>a. S (''post/'' @ a)) album_id \<and>
                 new ''gsiK3SortKey'' =
                   (if st = COMPLETED then map_option N album_rank2 else Some (N (- 1))) \<and>
                 (st = COMPLETED) = (album_rank2 \<noteq> None)
            else new ''albumId'' = None \<and> new ''gsiK3PartitionKey'' = None \<and>
                 new ''gsiK3SortKey'' = None \<and> album_rank2 = None)))"
  using set_post_status_values[of post_item status original_post_id album_rank t tbl tbl']
        set_album_id_values[of post_item2 album_id album_rank2 t2 tbl2 tbl2']
  by blast

theorem index_keys_after_set_witness:
  "(\<exists>t tbl'. transact_set_post_status ex_album_post COMPLETED (Some ''p0'') (Some (1 / 2)) = Inr t \<and>
      transact_write_items ex_table [t] = Inr tbl' \<and>
      stored_attr tbl' ''p1'' ''postStatus'' = Some (S COMPLETED) \<and>
      stored_attr tbl' ''p1'' ''gsiA2SortKey'' = Some (S (COMPLETED @ ''/2020-01-01T10:00:00Z'')) \<and>
      stored_attr tbl' ''p1'' ''gsiK3SortKey'' = Some (N (1 / 2)))
   \<and>
   (\<exists>t2 tbl2'. transact_set_album_id ex_plain_post (Some ''a7'') None = Inr t2 \<and>
      transact_write_items ex_table [t2] = Inr tbl2' \<and>
      stored_attr tbl2' ''p2'' ''albumId'' = Some (S ''a7'') \<and>
      stored_attr tbl2' ''p2'' ''gsiK3SortKey'' = Some (N (- 1)))"
proof -
  obtain t where t: "transact_set_post_status ex_album_post COMPLETED (Some ''p0'') (Some (1 / 2)) = Inr t"
    using ex_album_complete_built by blast
  have "\<exists>tbl'. transact_write_items ex_table [t] = Inr tbl'"
    by (rule set_post_status_succeeds[OF t, of "''p1''" _ ex_album_post])
       (simp_all add: ex_album_post_def ex_table_def post_pk_def)
  then obtain tbl' where r: "transact_write_items ex_table [t] = Inr tbl'" by blast
  obtain t2 tbl2' where t2: "transact_set_album_id ex_plain_post (Some ''a7'') None = Inr t2"
    and r2: "transact_write_items ex_table [t2] = Inr tbl2'"
    using ex_set_album_built by blast
  note th = index_keys_after_set[of ex_album_post COMPLETED "Some ''p0''" "Some (1 / 2)" t ex_table tbl'
              ex_plain_post "Some ''a7''" None t2 ex_table tbl2']
  from th[THEN conjunct1] t r obtain post_id posted_at new where
    a: "ex_album_post ''postId'' = Some (S post_id)" "ex_album_post ''postedAt'' = Some (S posted_at)"
       "get_post tbl' post_id = Some new" "new ''postStatus'' = Some (S COMPLETED)"
       "new ''gsiA2SortKey'' = Some (S (COMPLETED @ ''/'' @ posted_at))"
       "if truthy (ex_album_post ''albumId'')
        then new ''gsiK3SortKey'' = (if COMPLETED = COMPLETED then map_option N (Some (1 / 2)) else Some (N (- 1))) \<and>
             (COMPLETED = COMPLETED) = (Some (1 / 2 :: rat) \<noteq> None)
        else new ''gsiK3SortKey'' = None \<and> Some (1 / 2 :: rat) = None"
    by (auto simp: ex_album_post_def)
  from a have one: "stored_attr tbl' ''p1'' ''postStatus'' = Some (S COMPLETED)"
      "stored_attr tbl' ''p1'' ''gsiA2SortKey'' = Some (S (COMPLETED @ ''/2020-01-01T10:00:00Z''))"
      "stored_attr tbl' ''p1'' ''gsiK3SortKey'' = Some (N (1 / 2))"
    by (auto simp: stored_attr_def ex_album_post_def)
  from th[THEN conjunct2] t2 r2 obtain post_id2 new2 where
    b: "ex_plain_post ''postId'' = Some (S post_id2)" "get_post tbl2' post_id2 = Some new2"
       "new2 ''albumId'' = Some (S ''a7'')"
       "new2 ''gsiK3SortKey'' = (if ''PENDING'' = COMPLETED then None else Some (N (- 1)))"
    by (auto simp: ex_plain_post_def)
  from b have two: "stored_attr tbl2' ''p2'' ''albumId'' = Some (S ''a7'')"
      "stored_attr tbl2' ''p2'' ''gsiK3SortKey'' = Some (N (- 1))"
    by (auto simp: stored_attr_def ex_plain_post_def COMPLETED_def)
  from t r one t2 r2 two show ?thesis by blast
qed

section \<open>The album query\<close>

text \<open>
  C9. \<open>generate_post_ids_in_album\<close> raises its assertion error exactly when both a
  completed filter and an after-rank cursor are given, whatever the table holds: the check
  is the first statement and the result then does not depend on the store. With one of the
  two restrictions, or none, it returns the ids of the query.
\<close>

theorem album_query_filter_exclusive:
  "(generate_post_ids_in_album tbl album_id completed after_rank = Inl AssertionError
      \<longleftrightarrow> completed \<noteq> None \<and> after_rank \<noteq> None)
   \<and> (completed = None \<or> after_rank = None \<longrightarrow>
        (\<exists>ids. generate_post_ids_in_album tbl album_id completed after_rank = Inr ids))"
  by (simp add: generate_post_ids_in_album_def)

theorem album_query_filter_exclusive_witness:
  "generate_post_ids_in_album ex_table ''a1'' (Some True) (Some 0) = Inl AssertionError
   \<and> (\<exists>ids. generate_post_ids_in_album ex_table ''a1'' (Some False) None = Inr ids)
   \<and> (\<exists>ids. generate_post_ids_in_album ex_table ''a1'' None (Some 0) = Inr ids)"
  using album_query_filter_exclusive[of ex_table "''a1''" "Some True" "Some 0"]
        album_query_filter_exclusive[of ex_table "''a1''" "Some False" None]
        album_query_filter_exclusive[of ex_table "''a1''" None "Some 0"]
  by simp

lemma ex_album_query:
  "generate_post_ids_in_album ex_table ''a1'' (Some False) None = Inr [Inr ''p1'']"
  by (simp add: generate_post_ids_in_album_def generate_all_query_num_def in_num_index_def
        str_attr_def num_attr_def ex_table_def ex_album_post_def ex_plain_post_def project_def
        second_segment_def getitem_str_def)

section \<open>Increments on a missing post\<close>

lemma update_item_absent:
  "map_of tbl (Key u) = None \<Longrightarrow> update_item tbl u = Inl ConditionalCheckFailedException"
  by (simp add: update_item_def run_update_def split: option.split)

lemma run_absent_canceled:
  "map_of tbl k = None \<Longrightarrow>
   transact_write_items tbl
     [Update \<lparr>Key = k, UpdateExpression = acts,
               ConditionExpression = Some (attribute_exists ''partitionKey'')\<rparr>]
     = Inl TransactionCanceledException"
  by (simp add: run_transacts_single run_update_def)

text \<open>
  C7, as stated, has every increment on a missing post fail with the not-found error. The
  flag, like and comment increments are transaction items guarded by
  \<open>attribute_exists(partitionKey)\<close>; on a missing post the store cancels the transaction.
\<close>

theorem flag_increment_not_found_counterexample:
  "get_post [] ''p9'' = None \<and>
   transact_write_items [] [transact_increment_flag_count ''p9'']
     \<noteq> Inl (PostDoesNotExist ''p9'')"
  by (simp add: get_post_def transact_increment_flag_count_def run_absent_canceled)

text \<open>
  C7, amended. When the record of a post is absent, \<open>increment_viewed_by_count\<close> fails with
  \<open>PostDoesNotExist\<close> for that post id, and the transactions holding the flag, comment or
  like increment are cancelled by the store. Each call ends in an error and returns no
  table: no record is created or modified.
\<close>

theorem increment_on_missing_post:
  assumes "get_post tbl post_id = None"
  shows "increment_viewed_by_count tbl post_id = Inl (PostDoesNotExist post_id) \<and>
         transact_write_items tbl [transact_increment_flag_count post_id]
           = Inl TransactionCanceledException \<and>
         transact_write_items tbl [transact_increment_comment_count post_id]
           = Inl TransactionCanceledException \<and>
         (\<forall>like_status t. transact_increment_like_count post_id like_status = Inr t \<longrightarrow>
            transact_write_items tbl [t] = Inl TransactionCanceledException)"
  using assms
  by (auto simp: increment_viewed_by_count_def update_item_absent get_post_def
        transact_increment_flag_count_def transact_increment_comment_count_def
        transact_increment_like_count_def run_absent_canceled split: sum.splits)

theorem increment_on_missing_post_witness:
  "get_post ex_table ''p9'' = None \<and>
   increment_viewed_by_count ex_table ''p9'' = Inl (PostDoesNotExist ''p9'') \<and>
   transact_write_items ex_table [transact_increment_flag_count ''p9'']
     = Inl TransactionCanceledException"
proof -
  have h: "get_post ex_table ''p9'' = None"
    by (simp add: get_post_def ex_table_def post_pk_def)
  from increment_on_missing_post[OF h] h show ?thesis by simp
qed

section \<open>The multi-field edit\<close>

lemma update_item_existing:
  assumes "map_of tbl (Key u) = Some old" "old ''partitionKey'' \<noteq> None"
      and "ConditionExpression u = None"
  shows "update_item tbl u =
           (case apply_actions (UpdateExpression u) old of
              None \<Rightarrow> Inl ValidationException
            | Some new \<Rightarrow> Inr (AList.update (Key u) new tbl, new))"
  using assms by (simp add: update_item_def run_update_def base_item_def split: option.split)

lemma update_item_Inr:
  assumes "update_item tbl u = Inr (tbl', new)"
  shows "\<exists>old. map_of tbl (Key u) = Some old \<and> old ''partitionKey'' \<noteq> None \<and>
           apply_actions (UpdateExpression u) old = Some new \<and>
           tbl' = AList.update (Key u) new tbl"
  using assms
  by (cases "map_of tbl (Key u)")
     (auto simp: update_item_def run_update_def base_item_def Let_def
           split: option.splits if_splits outcome.splits)

lemma bool_set_total: "\<exists>j. apply_actions (bool_set a v) i = Some j \<and> (\<forall>b. b \<noteq> a \<longrightarrow> j b = i b)"
  by (cases v) (simp_all add: bool_set_def)

lemma edit_actions_attrs_no_text:
  "action_attr ` set (edit_actions None text_tags cd ld sd vh)
     \<subseteq> {''commentsDisabled'', ''likesDisabled'', ''sharingDisabled'', ''verificationHidden''}"
  by (auto simp: edit_actions_def bool_set_def split: option.splits)

lemma edit_actions_flags_frame:
  assumes "apply_actions (bool_set ''commentsDisabled'' cd @ bool_set ''likesDisabled'' ld
             @ bool_set ''sharingDisabled'' sd @ bool_set ''verificationHidden'' vh) i = Some j"
  shows "j ''text'' = i ''text'' \<and> j ''textTags'' = i ''textTags''"
proof -
  have "a \<notin> action_attr ` set (bool_set ''commentsDisabled'' cd @ bool_set ''likesDisabled'' ld
             @ bool_set ''sharingDisabled'' sd @ bool_set ''verificationHidden'' vh)"
    if "a = ''text'' \<or> a = ''textTags''" for a
    using that by (auto simp: bool_set_def split: option.splits)
  with apply_actions_frame[OF assms] show ?thesis by blast
qed

lemma flags_total:
  "\<exists>j. apply_actions (bool_set ''commentsDisabled'' cd @ bool_set ''likesDisabled'' ld
             @ bool_set ''sharingDisabled'' sd @ bool_set ''verificationHidden'' vh) i = Some j"
  by (cases cd; cases ld; cases sd; cases vh) (simp_all add: bool_set_def)

lemma set_post_unfold:
  "set_post tbl post_id text text_tags cd ld sd vh =
     (if text = None \<and> cd = None \<and> ld = None \<and> sd = None \<and> vh = None then Inl AssertionError
      else update_item tbl \<lparr>Key = post_pk post_id,
             UpdateExpression = edit_actions text text_tags cd ld sd vh,
             ConditionExpression = None\<rparr>)"
  by (simp add: set_post_def edit_actions_def)

lemma set_post_nothing_to_do:
  "set_post tbl post_id None text_tags None None None None = Inl AssertionError"
  by (simp add: set_post_unfold)

lemma set_post_empty_text:
  assumes a: "get_post tbl post_id = Some old" "old ''partitionKey'' \<noteq> None"
  shows "\<exists>tbl' new.
           set_post tbl post_id (Some []) text_tags cd ld sd vh = Inr (tbl', new) \<and>
           get_post tbl' post_id = Some new \<and> new ''text'' = None \<and> new ''textTags'' = None"
proof -
  let ?fl = "bool_set ''commentsDisabled'' cd @ bool_set ''likesDisabled'' ld
             @ bool_set ''sharingDisabled'' sd @ bool_set ''verificationHidden'' vh"
  let ?i = "old(''text'' := None, ''textTags'' := None)"
  obtain new where n: "apply_actions ?fl ?i = Some new" using flags_total by blast
  from edit_actions_flags_frame[OF n] have f: "new ''text'' = None" "new ''textTags'' = None" by simp_all
  have e: "apply_actions (edit_actions (Some []) text_tags cd ld sd vh) old = Some new"
    using n by (simp add: edit_actions_def)
  have "set_post tbl post_id (Some []) text_tags cd ld sd vh
          = Inr (AList.update (post_pk post_id) new tbl, new)"
    using a e by (simp add: set_post_unfold update_item_existing get_post_def)
  moreover have "get_post (AList.update (post_pk post_id) new tbl) post_id = Some new"
    by (simp add: get_post_def update_conv')
  ultimately show ?thesis using f by blast
qed

lemma set_post_tags_ignored:
  "text = None \<or> text = Some [] \<Longrightarrow>
     set_post tbl post_id text text_tags cd ld sd vh = set_post tbl post_id text None cd ld sd vh"
  by (auto simp: set_post_unfold edit_actions_def)

lemma set_post_no_text_keeps_tags:
  assumes a: "set_post tbl post_id None text_tags cd ld sd vh = Inr (tbl2, new2)"
  shows "get_post tbl2 post_id = Some new2 \<and>
         stored_attr tbl2 post_id ''textTags'' = stored_attr tbl post_id ''textTags''"
proof -
  from a have u: "update_item tbl \<lparr>Key = post_pk post_id,
             UpdateExpression = edit_actions None text_tags cd ld sd vh,
             ConditionExpression = None\<rparr> = Inr (tbl2, new2)"
    by (auto simp: set_post_unfold split: if_splits)
  from update_item_Inr[OF u] obtain old where
    o: "map_of tbl (post_pk post_id) = Some old"
       "apply_actions (edit_actions None text_tags cd ld sd vh) old = Some new2"
       "tbl2 = AList.update (post_pk post_id) new2 tbl"
    by auto
  have "''textTags'' \<notin> action_attr ` set (edit_actions None text_tags cd ld sd vh)"
    using edit_actions_attrs_no_text[of text_tags cd ld sd vh] by auto
  with o(2) have "new2 ''textTags'' = old ''textTags''" by (rule apply_actions_frame)
  with o show ?thesis
    by (simp add: get_post_def stored_attr_def update_conv')
qed

text \<open>
  C8, as stated, says that supplying \<open>textTags\<close> without a non-empty text leaves the stored
  tags unchanged. With the empty string as text, the stored tags are removed together with
  the text, whatever tags are supplied.
\<close>

theorem set_post_tags_removed_counterexample:
  "stored_attr ex_text_table ''p3'' ''textTags''
     = Some (L [M [(''tag'', S ''@rainbow''), (''userId'', S ''u2'')]]) \<and>
   set_post ex_text_table ''p3'' (Some []) (Some [M [(''tag'', S ''@sky''), (''userId'', S ''u5'')]])
       None None None None
     = Inr ([(post_pk ''p3'', ex_text_post(''text'' := None, ''textTags'' := None))],
            ex_text_post(''text'' := None, ''textTags'' := None)) \<and>
   stored_attr [(post_pk ''p3'', ex_text_post(''text'' := None, ''textTags'' := None))] ''p3'' ''textTags''
     = None"
  by (simp add: stored_attr_def get_post_def ex_text_table_def set_post_def update_item_def
        run_update_def base_item_def bool_set_def ex_text_post_def post_pk_def)

text \<open>
  C8, amended. (1) With no text and no flag supplied, the edit raises its assertion error,
  whatever the table and the supplied tags; no request reaches the store. (2) With the
  empty string as text, on an existing record, \<open>text\<close> and \<open>textTags\<close> are both removed.
  (3) When the text is absent or empty the supplied tags are never written: the call
  behaves as the same call without tags. (4) When the text is absent, a successful edit
  leaves the stored tags as they were.
\<close>

theorem set_post_edit:
  "(text = None \<and> comments_disabled = None \<and> likes_disabled = None \<and> sharing_disabled = None
      \<and> verification_hidden = None \<longrightarrow>
      set_post tbl post_id text text_tags comments_disabled likes_disabled sharing_disabled
        verification_hidden = Inl AssertionError)
   \<and> (text = Some [] \<and> get_post tbl post_id = Some old \<and> old ''partitionKey'' \<noteq> None \<longrightarrow>
        (\<exists>tbl' new.
           set_post tbl post_id text text_tags comments_disabled likes_disabled sharing_disabled
             verification_hidden = Inr (tbl', new) \<and>
           get_post tbl' post_id = Some new \<and> new ''text'' = None \<and> new ''textTags'' = None))
   \<and> (text = None \<or> text = Some [] \<longrightarrow>
        set_post tbl post_id text text_tags comments_disabled likes_disabled sharing_disabled
          verification_hidden
        = set_post tbl post_id text None comments_disabled likes_disabled sharing_disabled
            verification_hidden)
   \<and> (text = None \<and>
        set_post tbl post_id text text_tags comments_disabled likes_disabled sharing_disabled
          verification_hidden = Inr (tbl2, new2) \<longrightarrow>
        get_post tbl2 post_id = Some new2 \<and>
        stored_attr tbl2 post_id ''textTags'' = stored_attr tbl post_id ''textTags'')"
  using set_post_nothing_to_do[of tbl post_id text_tags]
        set_post_empty_text[of tbl post_id old text_tags comments_disabled likes_disabled
          sharing_disabled verification_hidden]
        set_post_tags_ignored[of "text" tbl post_id text_tags comments_disabled likes_disabled
          sharing_disabled verification_hidden]
        set_post_no_text_keeps_tags[of tbl post_id text_tags comments_disabled likes_disabled
          sharing_disabled verification_hidden tbl2 new2]
  by blast

theorem set_post_edit_witness:
  "set_post ex_text_table ''p3'' None (Some []) None None None None = Inl AssertionError
   \<and> (\<exists>tbl' new. set_post ex_text_table ''p3'' (Some []) None None None None None = Inr (tbl', new) \<and>
         get_post tbl' ''p3'' = Some new \<and> new ''text'' = None \<and> new ''textTags'' = None)
   \<and> (\<exists>tbl2 new2. set_post ex_text_table ''p3'' None (Some []) (Some True) None None None = Inr (tbl2, new2) \<and>
         stored_attr tbl2 ''p3'' ''textTags'' = stored_attr ex_text_table ''p3'' ''textTags'')"
proof -
  have g: "get_post ex_text_table ''p3'' = Some ex_text_post" "ex_text_post ''partitionKey'' \<noteq> None"
    by (simp_all add: get_post_def ex_text_table_def ex_text_post_def)
  have one: "set_post ex_text_table ''p3'' None (Some []) None None None None = Inl AssertionError"
    using set_post_edit[of None None None None None ex_text_table "''p3''" "Some []"] by simp
  have two: "\<exists>tbl' new. set_post ex_text_table ''p3'' (Some []) None None None None None = Inr (tbl', new) \<and>
         get_post tbl' ''p3'' = Some new \<and> new ''text'' = None \<and> new ''textTags'' = None"
    using set_post_edit[of "Some []" None None None None ex_text_table "''p3''" None ex_text_post] g
    by simp
  obtain tbl2 new2 where r: "set_post ex_text_table ''p3'' None (Some []) (Some True) None None None = Inr (tbl2, new2)"
    by (simp add: set_post_def update_item_def run_update_def base_item_def bool_set_def
          ex_text_table_def ex_text_post_def post_pk_def)
  have three: "stored_attr tbl2 ''p3'' ''textTags'' = stored_attr ex_text_table ''p3'' ''textTags''"
    using set_post_edit[of None "Some True" None None None ex_text_table "''p3''" "Some []" _ tbl2 new2] r
    by simp
  from one two r three show ?thesis by blast
qed

section \<open>Counters never go below zero\<close>

lemma decrement_requests_guarded:
  "t \<in> set (decrement_requests post_id) \<Longrightarrow>
     \<exists>a. t = Update (guarded_decrement post_id a)"
  by (auto simp: decrement_requests_def guarded_decrement_def transact_decrement_flag_count_def
        transact_decrement_comment_count_def transact_decrement_like_count_def
        like_count_attribute_def ONYMOUSLY_LIKED_def ANONYMOUSLY_LIKED_def)

lemma no_count_not_gt:
  "no_count tbl post_id a \<Longrightarrow> \<not> holds (map_of tbl (post_pk post_id)) (Cmp_gt a (N 0))"
  by (auto simp: no_count_def stored_attr_def get_post_def split: option.splits attr_value.splits)

lemma guarded_decrement_floor:
  "no_count tbl post_id a \<Longrightarrow>
     transact_write_items tbl [Update (guarded_decrement post_id a)] = Inl TransactionCanceledException"
  using no_count_not_gt[of tbl post_id a]
  by (simp add: run_transacts_single run_update_def guarded_decrement_def)

lemma decrement_count_floor:
  assumes "no_count tbl post_id a"
  shows "decrement_count tbl warnings post_id a False = Inl ConditionalCheckFailedException"
    and "decrement_count tbl warnings post_id a True
           = Inr (tbl, warnings @ [FailedToDecrement a post_id], None)"
  using no_count_not_gt[OF assms]
  by (simp_all add: decrement_count_def update_item_def run_update_def)

lemma count_pred:
  fixes x :: rat
  assumes "0 \<le> x" "of_int \<lfloor>x\<rfloor> = x" "0 < x"
  shows "0 \<le> x - 1 \<and> of_int \<lfloor>x - 1\<rfloor> = x - 1"
proof -
  from assms(2,3) have "0 < \<lfloor>x\<rfloor>" by (metis of_int_0_less_iff)
  then have "1 \<le> \<lfloor>x\<rfloor>" by simp
  then have "(1::rat) \<le> of_int \<lfloor>x\<rfloor>" by (metis of_int_1_le_iff)
  with assms(2) show ?thesis by simp
qed

lemma guarded_decrement_run:
  assumes "transact_write_items tbl [Update (guarded_decrement post_id a)] = Inr tbl'"
  shows "\<exists>old x. map_of tbl (post_pk post_id) = Some old \<and> old a = Some (N x) \<and> 0 < x \<and>
           tbl' = AList.update (post_pk post_id) (old(a \<mapsto> N (x - 1))) tbl"
  using assms
  by (auto simp: run_transacts_single run_update_def base_item_def guarded_decrement_def Let_def
           split: if_splits option.splits attr_value.splits)

lemma guarded_decrement_keeps_counts:
  assumes ran: "transact_write_items tbl [Update (guarded_decrement post_id a)] = Inr tbl'"
      and ok: "is_count (stored_attr tbl p b)"
  shows "is_count (stored_attr tbl' p b)"
proof -
  from guarded_decrement_run[OF ran] obtain old x where
    o: "map_of tbl (post_pk post_id) = Some old" "old a = Some (N x)" "0 < x"
       "tbl' = AList.update (post_pk post_id) (old(a \<mapsto> N (x - 1))) tbl"
    by blast
  show ?thesis
  proof (cases "post_pk p = post_pk post_id \<and> b = a")
    case True
    with o ok have "0 \<le> x" "of_int \<lfloor>x\<rfloor> = x"
      by (simp_all add: stored_attr_def get_post_def is_count_def)
    with count_pred[of x] o(3) have "0 \<le> x - 1 \<and> of_int \<lfloor>x - 1\<rfloor> = x - 1" by simp
    with True o(4) show ?thesis
      by (simp add: stored_attr_def get_post_def is_count_def update_conv')
  next
    case False
    with o have "stored_attr tbl' p b = stored_attr tbl p b"
      by (auto simp: stored_attr_def get_post_def update_conv')
    with ok show ?thesis by simp
  qed
qed

lemma submit_each_keeps_counts:
  assumes "\<forall>t \<in> set ts. \<exists>q. t \<in> set (decrement_requests q)"
      and "is_count (stored_attr tbl p b)"
  shows "is_count (stored_attr (submit_each tbl ts) p b)"
  using assms
proof (induction ts arbitrary: tbl)
  case Nil
  then show ?case by simp
next
  case (Cons t ts)
  then obtain q a where t: "t = Update (guarded_decrement q a)"
    using decrement_requests_guarded by (metis list.set_intros(1))
  let ?next = "case transact_write_items tbl [t] of Inl _ \<Rightarrow> tbl | Inr tbl' \<Rightarrow> tbl'"
  have "is_count (stored_attr ?next p b)"
  proof (cases "transact_write_items tbl [t]")
    case (Inl e)
    with Cons.prems(2) show ?thesis by simp
  next
    case (Inr tbl')
    with guarded_decrement_keeps_counts[OF Inr[unfolded t] Cons.prems(2)] show ?thesis by simp
  qed
  with Cons.IH[of ?next] Cons.prems(1) show ?case by simp
qed

lemma decrement_count_keeps_counts:
  assumes ran: "decrement_count tbl warnings post_id a soft = Inr (tbl', warnings', r)"
      and ok: "is_count (stored_attr tbl p b)"
  shows "is_count (stored_attr tbl' p b)"
proof (cases "update_item tbl \<lparr>Key = post_pk post_id, UpdateExpression = [ADD a (- 1)],
                 ConditionExpression = Some (Cmp_gt a (N 0))\<rparr>")
  case (Inl e)
  with ran have "tbl' = tbl"
    by (auto simp: decrement_count_def split: error.splits if_splits)
  with ok show ?thesis by simp
next
  case (Inr res)
  with ran have u: "update_item tbl \<lparr>Key = post_pk post_id, UpdateExpression = [ADD a (- 1)],
                 ConditionExpression = Some (Cmp_gt a (N 0))\<rparr> = Inr (tbl', snd res)"
    by (cases res) (simp add: decrement_count_def)
  then have "transact_write_items tbl [Update (guarded_decrement post_id a)] = Inr tbl'"
    by (auto simp: update_item_def run_transacts_single guarded_decrement_def
             split: outcome.splits)
  from guarded_decrement_keeps_counts[OF this ok] show ?thesis .
qed

lemma like_decrement_floor:
  assumes "like_count_attribute like_status = Inr a" "no_count tbl post_id a"
  shows "\<exists>t. transact_decrement_like_count post_id like_status = Inr t \<and>
           transact_write_items tbl [t] = Inl TransactionCanceledException"
  using assms guarded_decrement_floor[of tbl post_id a]
  by (simp add: transact_decrement_like_count_def guarded_decrement_def)

lemma ex_counted_floor_reached:
  "stored_attr
     (submit_each ex_counted_table
        [transact_decrement_flag_count ''p4'', transact_decrement_flag_count ''p4''])
     ''p4'' ''flagCount'' = Some (N 0)"
  by (simp add: transact_write_items_def run_update_def base_item_def ex_counted_table_def
        ex_counted_post_def transact_decrement_flag_count_def post_pk_def stored_attr_def
        get_post_def)

text \<open>
  C4. When the stored counter of a post is absent or zero, the transaction holding the
  flag, comment or like decrement is cancelled by its condition; the decrement call
  fails with the conditional-check error, or in fail-soft mode returns no item, logs one
  warning and hands back the table as it was. A decrement that succeeds keeps every stored
  counter a non-negative whole number, so no sequence of decrements, failed or not, drives
  a counter below zero.
\<close>

theorem decrement_never_below_zero:
  "(no_count tbl post_id ''flagCount'' \<longrightarrow>
      transact_write_items tbl [transact_decrement_flag_count post_id]
        = Inl TransactionCanceledException)
   \<and> (no_count tbl post_id ''commentCount'' \<longrightarrow>
      transact_write_items tbl [transact_decrement_comment_count post_id]
        = Inl TransactionCanceledException)
   \<and> (like_count_attribute like_status = Inr a \<and> no_count tbl post_id a \<longrightarrow>
      (\<exists>t. transact_decrement_like_count post_id like_status = Inr t \<and>
           transact_write_items tbl [t] = Inl TransactionCanceledException))
   \<and> (no_count tbl post_id b \<longrightarrow>
      decrement_count tbl warnings post_id b False = Inl ConditionalCheckFailedException \<and>
      decrement_count tbl warnings post_id b True
        = Inr (tbl, warnings @ [FailedToDecrement b post_id], None))
   \<and> ((\<forall>t \<in> set ts. \<exists>q. t \<in> set (decrement_requests q)) \<and> is_count (stored_attr tbl p c) \<longrightarrow>
      is_count (stored_attr (submit_each tbl ts) p c))
   \<and> (decrement_count tbl warnings post_id b soft = Inr (tbl', warnings', r) \<and>
       is_count (stored_attr tbl p c) \<longrightarrow>
      is_count (stored_attr tbl' p c))"
  using guarded_decrement_floor[of tbl post_id "''flagCount''"]
        guarded_decrement_floor[of tbl post_id "''commentCount''"]
        like_decrement_floor[of like_status a tbl post_id]
        decrement_count_floor[of tbl post_id b warnings]
        submit_each_keeps_counts[of ts tbl p c]
        decrement_count_keeps_counts[of tbl warnings post_id b soft tbl' warnings' r p c]
  unfolding transact_decrement_flag_count_def transact_decrement_comment_count_def
    guarded_decrement_def
  by blast

theorem decrement_never_below_zero_witness:
  "no_count ex_counted_table ''p4'' ''commentCount'' \<and>
   transact_write_items ex_counted_table [transact_decrement_comment_count ''p4'']
     = Inl TransactionCanceledException \<and>
   no_count ex_counted_table ''p4'' ''onymousLikeCount'' \<and>
   (\<exists>t. transact_decrement_like_count ''p4'' ONYMOUSLY_LIKED = Inr t \<and>
        transact_write_items ex_counted_table [t] = Inl TransactionCanceledException) \<and>
   decrement_count ex_counted_table [] ''p4'' ''commentCount'' True
     = Inr (ex_counted_table, [FailedToDecrement ''commentCount'' ''p4''], None) \<and>
   is_count (stored_attr ex_counted_table ''p4'' ''flagCount'') \<and>
   is_count (stored_attr
     (submit_each ex_counted_table
        [transact_decrement_flag_count ''p4'', transact_decrement_flag_count ''p4'',
         transact_decrement_flag_count ''p4''])
     ''p4'' ''flagCount'')"
proof -
  have n1: "no_count ex_counted_table ''p4'' ''commentCount''"
    and n2: "no_count ex_counted_table ''p4'' ''onymousLikeCount''"
    and c: "is_count (stored_attr ex_counted_table ''p4'' ''flagCount'')"
    by (simp_all add: no_count_def is_count_def stored_attr_def get_post_def ex_counted_table_def
          ex_counted_post_def)
  have l: "like_count_attribute ONYMOUSLY_LIKED = Inr ''onymousLikeCount''"
    by (simp add: like_count_attribute_def)
  have d: "\<forall>t \<in> set [transact_decrement_flag_count ''p4'', transact_decrement_flag_count ''p4'',
         transact_decrement_flag_count ''p4'']. \<exists>q. t \<in> set (decrement_requests q)"
    by (auto simp: decrement_requests_def)
  note th = decrement_never_below_zero[of ex_counted_table "''p4''" ONYMOUSLY_LIKED
      "''onymousLikeCount''" "''commentCount''" "[]"
      "[transact_decrement_flag_count ''p4'', transact_decrement_flag_count ''p4'',
         transact_decrement_flag_count ''p4'']" "''p4''" "''flagCount''"
      True ex_counted_table "[]" None]
  from th n1 n2 c l d show ?thesis by simp
qed

section \<open>The first post with a checksum\<close>


















section \<open>Dates and times of day as strings\<close>

lemma digit_less: "m < 10 \<Longrightarrow> n < 10 \<Longrightarrow> digit m < digit n \<longleftrightarrow> m < n"
  by (simp add: digit_def less_char_def)

lemma digit_inj: "m < 10 \<Longrightarrow> n < 10 \<Longrightarrow> digit m = digit n \<longleftrightarrow> m = n"
  using digit_less[of m n] digit_less[of n m] by (metis less_irrefl nat_neq_iff)

lemma length_pad: "length (pad k n) = k"
  by (induction k arbitrary: n) auto

lemma less_append_same_length:
  fixes u v :: "'a::linorder list"
  shows "length u = length v \<Longrightarrow> u @ x < v @ y \<longleftrightarrow> u < v \<or> (u = v \<and> x < y)"
  by (induction u v rule: list_induct2) auto


lemma div10_bound: "a < 10 ^ Suc k \<Longrightarrow> a div 10 < (10::nat) ^ k"
proof -
  assume "a < 10 ^ Suc k"
  then have "a < 10 ^ k * 10" by simp
  then show ?thesis by (rule less_mult_imp_div_less)
qed

lemma div_mod_10_eq: "(a::nat) div 10 = b div 10 \<Longrightarrow> a mod 10 = b mod 10 \<Longrightarrow> a = b"
  by (metis div_mult_mod_eq)

lemma lex_base10:
  fixes qa ra qb rb :: nat
  assumes "ra < 10" "rb < 10"
  shows "10 * qa + ra < 10 * qb + rb \<longleftrightarrow> qa < qb \<or> (qa = qb \<and> ra < rb)"
  using assms by linarith

lemma div_mod_10_less:
  "(a::nat) < b \<longleftrightarrow> a div 10 < b div 10 \<or> (a div 10 = b div 10 \<and> a mod 10 < b mod 10)"
proof -
  have "a = 10 * (a div 10) + a mod 10" "b = 10 * (b div 10) + b mod 10" by simp_all
  then have "a < b \<longleftrightarrow> 10 * (a div 10) + a mod 10 < 10 * (b div 10) + b mod 10" by simp
  also have "\<dots> \<longleftrightarrow> a div 10 < b div 10 \<or> (a div 10 = b div 10 \<and> a mod 10 < b mod 10)"
    by (rule lex_base10) simp_all
  finally show ?thesis .
qed

lemma pad_inj: "a < 10 ^ k \<Longrightarrow> b < 10 ^ k \<Longrightarrow> pad k a = pad k b \<longleftrightarrow> a = b"
proof (induction k arbitrary: a b)
  case 0
  then show ?case by simp
next
  case (Suc k)
  have d: "a div 10 < 10 ^ k" "b div 10 < 10 ^ k"
    by (rule div10_bound[OF Suc.prems(1)]) (rule div10_bound[OF Suc.prems(2)])
  have "pad (Suc k) a = pad (Suc k) b \<longleftrightarrow>
          pad k (a div 10) = pad k (b div 10) \<and> digit (a mod 10) = digit (b mod 10)"
    by (simp add: length_pad)
  also have "\<dots> \<longleftrightarrow> a div 10 = b div 10 \<and> a mod 10 = b mod 10"
    using Suc.IH[OF d] by (simp add: digit_inj)
  also have "\<dots> \<longleftrightarrow> a = b" using div_mod_10_eq[of a b] by blast
  finally show ?case .
qed

lemma pad_less: "a < 10 ^ k \<Longrightarrow> b < 10 ^ k \<Longrightarrow> pad k a < pad k b \<longleftrightarrow> a < b"
proof (induction k arbitrary: a b)
  case 0
  then show ?case by simp
next
  case (Suc k)
  have d: "a div 10 < 10 ^ k" "b div 10 < 10 ^ k"
    by (rule div10_bound[OF Suc.prems(1)]) (rule div10_bound[OF Suc.prems(2)])
  have "pad (Suc k) a < pad (Suc k) b \<longleftrightarrow>
          pad k (a div 10) < pad k (b div 10) \<or>
          (pad k (a div 10) = pad k (b div 10) \<and> digit (a mod 10) < digit (b mod 10))"
    by (simp add: less_append_same_length length_pad)
  also have "\<dots> \<longleftrightarrow> a div 10 < b div 10 \<or> (a div 10 = b div 10 \<and> a mod 10 < b mod 10)"
    using Suc.IH[OF d] pad_inj[OF d] by (simp add: digit_less)
  also have "\<dots> \<longleftrightarrow> a < b" using div_mod_10_less[of a b] by simp
  finally show ?case .
qed

lemma str_time_split: "str_time t = hms t @ frac (microsecond t)"
  by (simp add: str_time_def hms_def frac_def)

lemma length_hms: "length (hms t) = 8"
  by (simp add: hms_def length_pad)

lemma pad2_less: "a < 100 \<Longrightarrow> b < 100 \<Longrightarrow> pad 2 a < pad 2 b \<longleftrightarrow> a < b"
  using pad_less[of a 2 b] by simp

lemma pad2_inj: "a < 100 \<Longrightarrow> b < 100 \<Longrightarrow> pad 2 a = pad 2 b \<longleftrightarrow> a = b"
  using pad_inj[of a 2 b] by simp

lemma pad4_inj: "a < 10000 \<Longrightarrow> b < 10000 \<Longrightarrow> pad 4 a = pad 4 b \<longleftrightarrow> a = b"
  using pad_inj[of a 4 b] by simp

lemma pad6_less: "a < 1000000 \<Longrightarrow> b < 1000000 \<Longrightarrow> pad 6 a < pad 6 b \<longleftrightarrow> a < b"
  using pad_less[of a 6 b] by simp

lemma pad6_inj: "a < 1000000 \<Longrightarrow> b < 1000000 \<Longrightarrow> pad 6 a = pad 6 b \<longleftrightarrow> a = b"
  using pad_inj[of a 6 b] by simp

lemma frac_less: "a < 1000000 \<Longrightarrow> b < 1000000 \<Longrightarrow> frac a < frac b \<longleftrightarrow> a < b"
  by (auto simp: frac_def pad6_less)

lemma frac_inj: "a < 1000000 \<Longrightarrow> b < 1000000 \<Longrightarrow> frac a = frac b \<longleftrightarrow> a = b"
  by (auto simp: frac_def pad6_inj)

lemma hms_inj:
  assumes "valid_time s" "valid_time t"
  shows "hms s = hms t \<longleftrightarrow> hour s = hour t \<and> minute s = minute t \<and> second s = second t"
  using assms by (simp add: hms_def valid_time_def length_pad pad2_inj)

lemma hms_less:
  assumes "valid_time s" "valid_time t"
  shows "hms s < hms t \<longleftrightarrow>
           hour s < hour t \<or>
           (hour s = hour t \<and>
             (minute s < minute t \<or> (minute s = minute t \<and> second s < second t)))"
proof -
  let ?r = "\<lambda>t. pad 2 (minute t) @ '':'' @ pad 2 (second t)"
  have b: "hour s < 100" "hour t < 100" "minute s < 100" "minute t < 100"
          "second s < 100" "second t < 100"
    using assms by (simp_all add: valid_time_def)
  have r: "?r s < ?r t \<longleftrightarrow>
             minute s < minute t \<or> (minute s = minute t \<and> second s < second t)"
    using b by (simp add: less_append_same_length length_pad pad2_less pad2_inj)
  have "hms s < hms t \<longleftrightarrow>
          pad 2 (hour s) < pad 2 (hour t) \<or>
          (pad 2 (hour s) = pad 2 (hour t) \<and> '':'' @ ?r s < '':'' @ ?r t)"
    unfolding hms_def by (rule less_append_same_length) (simp add: length_pad)
  also have "\<dots> \<longleftrightarrow> hour s < hour t \<or> (hour s = hour t \<and> ?r s < ?r t)"
    using b by (simp add: pad2_less pad2_inj)
  finally show ?thesis using r by simp
qed

lemma lex_base60:
  fixes qa ra qb rb :: nat
  assumes "ra < 60" "rb < 60"
  shows "qa * 60 + ra < qb * 60 + rb \<longleftrightarrow> qa < qb \<or> (qa = qb \<and> ra < rb)"
  using assms by linarith

lemma lex_base_million:
  fixes qa ra qb rb :: nat
  assumes "ra < 1000000" "rb < 1000000"
  shows "qa * 1000000 + ra < qb * 1000000 + rb \<longleftrightarrow> qa < qb \<or> (qa = qb \<and> ra < rb)"
  using assms by linarith

lemma eq_base60:
  fixes qa ra qb rb :: nat
  assumes "ra < 60" "rb < 60"
  shows "qa * 60 + ra = qb * 60 + rb \<longleftrightarrow> qa = qb \<and> ra = rb"
proof
  assume e: "qa * 60 + ra = qb * 60 + rb"
  then have "\<not> qa * 60 + ra < qb * 60 + rb" "\<not> qb * 60 + rb < qa * 60 + ra" by simp_all
  then have "\<not> (qa < qb \<or> (qa = qb \<and> ra < rb))" "\<not> (qb < qa \<or> (qb = qa \<and> rb < ra))"
    unfolding lex_base60[OF assms] lex_base60[OF assms(2) assms(1)] by blast+
  then show "qa = qb \<and> ra = rb" by auto
next
  assume "qa = qb \<and> ra = rb"
  then show "qa * 60 + ra = qb * 60 + rb" by simp
qed

lemma time_us_less:
  assumes "valid_time s" "valid_time t"
  shows "time_us s < time_us t \<longleftrightarrow>
           hour s < hour t \<or>
           (hour s = hour t \<and>
             (minute s < minute t \<or>
              (minute s = minute t \<and>
                (second s < second t \<or>
                 (second s = second t \<and> microsecond s < microsecond t)))))"
proof -
  have b: "minute s < 60" "minute t < 60" "second s < 60" "second t < 60"
          "microsecond s < 1000000" "microsecond t < 1000000"
    using assms by (simp_all add: valid_time_def)
  let ?B = "\<lambda>t. hour t * 60 + minute t"
  let ?A = "\<lambda>t. ?B t * 60 + second t"
  have 1: "time_us s < time_us t \<longleftrightarrow>
             ?A s < ?A t \<or> (?A s = ?A t \<and> microsecond s < microsecond t)"
    unfolding time_us_def by (rule lex_base_million[OF b(5,6)])
  have 2: "?A s < ?A t \<longleftrightarrow> ?B s < ?B t \<or> (?B s = ?B t \<and> second s < second t)"
    by (rule lex_base60[OF b(3,4)])
  have 3: "?A s = ?A t \<longleftrightarrow> ?B s = ?B t \<and> second s = second t"
    by (rule eq_base60[OF b(3,4)])
  have 4: "?B s < ?B t \<longleftrightarrow> hour s < hour t \<or> (hour s = hour t \<and> minute s < minute t)"
    by (rule lex_base60[OF b(1,2)])
  have 5: "?B s = ?B t \<longleftrightarrow> hour s = hour t \<and> minute s = minute t"
    by (rule eq_base60[OF b(1,2)])
  show ?thesis unfolding 1 2 3 4 5 by blast
qed

lemma str_time_less:
  assumes "valid_time s" "valid_time t"
  shows "str_time s < str_time t \<longleftrightarrow> time_us s < time_us t"
proof -
  have us: "microsecond s < 1000000" "microsecond t < 1000000"
    using assms by (simp_all add: valid_time_def)
  have "str_time s < str_time t \<longleftrightarrow>
          hms s < hms t \<or> (hms s = hms t \<and> frac (microsecond s) < frac (microsecond t))"
    unfolding str_time_split by (rule less_append_same_length) (simp add: length_hms)
  also have "\<dots> \<longleftrightarrow> time_us s < time_us t"
    unfolding hms_less[OF assms] hms_inj[OF assms] frac_less[OF us] time_us_less[OF assms]
    by blast
  finally show ?thesis .
qed

lemma str_date_inj:
  assumes "valid_date c" "valid_date d"
  shows "str_date c = str_date d \<longleftrightarrow> c = d"
proof -
  have b: "year c < 10000" "year d < 10000" "month c < 100" "month d < 100"
          "day c < 100" "day d < 100"
    using assms by (simp_all add: valid_date_def)
  have "str_date c = str_date d \<longleftrightarrow> year c = year d \<and> month c = month d \<and> day c = day d"
    using b by (simp add: str_date_def length_pad pad4_inj pad2_inj)
  then show ?thesis by auto
qed

section \<open>The expired posts of a day\<close>

lemma insort_key_map:
  "insort_key f (g x) (map g xs) = map g (insort_key (\<lambda>a. f (g a)) x xs)"
  by (induction xs) auto

lemma sort_key_map: "sort_key f (map g xs) = map g (sort_key (\<lambda>a. f (g a)) xs)"
  by (induction xs) (auto simp: insort_key_map)

lemma filter_map_snd: "filter P (map g xs) = map g (filter (\<lambda>a. P (g a)) xs)"
  by (induction xs) auto

lemma sorted_map_transfer:
  assumes "sorted (map f xs)"
      and "\<And>x y. x \<in> set xs \<Longrightarrow> y \<in> set xs \<Longrightarrow> f x \<le> f y \<Longrightarrow> g x \<le> g y"
  shows "sorted (map g xs)"
proof -
  from assms(1) have "sorted_wrt (\<lambda>x y. f x \<le> f y) xs" by (simp add: sorted_map)
  then have "sorted_wrt (\<lambda>x y. g x \<le> g y) xs"
    by (rule sorted_wrt_mono_rel[rotated]) (use assms(2) in blast)
  then show ?thesis by (simp add: sorted_map)
qed

lemma str_time_le:
  assumes "valid_time s" "valid_time t" "str_time s \<le> str_time t"
  shows "time_us s \<le> time_us t"
  using str_time_less[OF assms(2,1)] assms(3) by (simp add: not_less[symmetric])

lemma project_keys:
  assumes "day_entry_in_sync ex e"
  shows "project [''partitionKey'', ''sortKey''] (snd e) = key_item (fst e)"
  using assms by (auto simp: project_def key_item_def day_entry_in_sync_def)

lemma day_index_member:
  assumes sync: "day_entry_in_sync ex e" and D: "valid_date D"
      and T: "case cut_off_time of None \<Rightarrow> True | Some T \<Rightarrow> valid_time T"
  shows "in_str_index ''gsiK1PartitionKey'' ''gsiK1SortKey'' (''post/'' @ str_date D)
           (case cut_off_time of None \<Rightarrow> [] | Some t \<Rightarrow> [\<lambda>s. s < str_time t]) (snd e)
         \<longleftrightarrow> expires_on_before D cut_off_time ex"
proof (cases ex)
  case None
  with sync show ?thesis
    by (simp add: day_entry_in_sync_def in_str_index_def str_attr_def expires_on_before_def)
next
  case (Some dt)
  obtain d t where dt: "dt = (d, t)" by (cases dt)
  with Some sync have v: "valid_date d" "valid_time t"
    and k: "snd e ''gsiK1PartitionKey'' = Some (S (''post/'' @ str_date d))"
           "snd e ''gsiK1SortKey'' = Some (S (str_time t))"
    by (simp_all add: day_entry_in_sync_def)
  show ?thesis
  proof (cases cut_off_time)
    case None
    with Some dt k str_date_inj[OF v(1) D] show ?thesis
      by (simp add: in_str_index_def str_attr_def expires_on_before_def)
  next
    case (Some T')
    with T have "valid_time T'" by simp
    with \<open>ex = Some dt\<close> Some dt k str_date_inj[OF v(1) D] str_time_less[OF v(2), of T']
    show ?thesis
      by (simp add: in_str_index_def str_attr_def expires_on_before_def)
  qed
qed

lemma day_index_key:
  assumes "day_entry_in_sync (Some (d, t)) e"
  shows "str_key ''gsiK1SortKey'' (snd e) = str_time t"
  using assms by (simp add: day_entry_in_sync_def str_key_def str_attr_def)

lemma ex_story_sync:
  "list_all (\<lambda>e. day_entry_in_sync (ex_expiry (fst e)) e) ex_story_table"
  by (simp add: ex_story_table_def ex_story_def ex_expiry_def day_entry_in_sync_def post_pk_def
        valid_date_def valid_time_def ex_day_def ex_ten_def ex_sixteen_def)

lemma ex_story_filter_noon:
  "filter (\<lambda>e. expires_on_before ex_day (Some ex_noon) (ex_expiry (fst e))) ex_story_table
     = [ex_story ''s1'' ex_ten]"
  by (simp add: ex_story_table_def ex_story_def ex_expiry_def expires_on_before_def post_pk_def
        time_us_def ex_ten_def ex_noon_def ex_sixteen_def)

lemma ex_story_filter_ten:
  "filter (\<lambda>e. expires_on_before ex_day (Some ex_ten) (ex_expiry (fst e))) ex_story_table = []"
  by (simp add: ex_story_table_def ex_story_def ex_expiry_def expires_on_before_def post_pk_def
        time_us_def ex_ten_def ex_sixteen_def)

text \<open>
  C5. In a table whose day-index keys reflect the expiry of its records, the query for
  day \<open>D\<close> with cut-off \<open>T\<close> returns the primary keys of exactly the records that expire on
  \<open>D\<close> at a time of day strictly earlier than \<open>T\<close> (each once), in ascending order of
  the time of day; with no cut-off it returns all the records of day \<open>D\<close>. The code compares
  the times as strings; on \<open>str\<close> of a time of day the string order is the order of time.
\<close>

theorem expired_post_pks_by_day:
  assumes sync: "\<forall>e \<in> set tbl. day_entry_in_sync (expiry (fst e)) e"
      and D: "valid_date D"
      and T: "case cut_off_time of None \<Rightarrow> True | Some T \<Rightarrow> valid_time T"
  shows "\<exists>es. generate_expired_post_pks_by_day tbl D cut_off_time = map (\<lambda>e. key_item (fst e)) es \<and>
              mset es = mset (filter (\<lambda>e. expires_on_before D cut_off_time (expiry (fst e))) tbl) \<and>
              sorted (map (\<lambda>e. expiry_time_us (expiry (fst e))) es)"
proof -
  let ?P = "in_str_index ''gsiK1PartitionKey'' ''gsiK1SortKey'' (''post/'' @ str_date D)
              (case cut_off_time of None \<Rightarrow> [] | Some t \<Rightarrow> [\<lambda>s. s < str_time t])"
  let ?f = "str_key ''gsiK1SortKey''"
  let ?Q = "\<lambda>e. expires_on_before D cut_off_time (expiry (fst e))"
  let ?es = "sort_key (\<lambda>e. ?f (snd e)) (filter ?Q tbl)"
  have flt: "filter (\<lambda>e. ?P (snd e)) tbl = filter ?Q tbl"
    by (rule filter_cong[OF refl]) (use sync D T day_index_member in auto)
  have "generate_all_query tbl ''gsiK1PartitionKey'' ''gsiK1SortKey'' (''post/'' @ str_date D)
          (case cut_off_time of None \<Rightarrow> [] | Some t \<Rightarrow> [\<lambda>s. s < str_time t]) (\<lambda>i. True)
        = map snd ?es"
    unfolding generate_all_query_def filter_map_snd sort_key_map flt by simp
  then have "generate_expired_post_pks_by_day tbl D cut_off_time
               = map (\<lambda>e. project [''partitionKey'', ''sortKey''] (snd e)) ?es"
    by (simp add: generate_expired_post_pks_by_day_def comp_def)
  also have "\<dots> = map (\<lambda>e. key_item (fst e)) ?es"
    by (rule map_cong[OF refl]) (use sync project_keys in auto)
  finally have one: "generate_expired_post_pks_by_day tbl D cut_off_time
               = map (\<lambda>e. key_item (fst e)) ?es" .
  have two: "mset ?es = mset (filter ?Q tbl)" by simp
  have srt: "sorted (map (\<lambda>e. ?f (snd e)) ?es)" by (rule sorted_sort_key)
  have three: "sorted (map (\<lambda>e. expiry_time_us (expiry (fst e))) ?es)"
  proof (rule sorted_map_transfer[OF srt])
    fix x y assume x: "x \<in> set ?es" and y: "y \<in> set ?es"
      and le: "?f (snd x) \<le> ?f (snd y)"
    from x sync have sx: "day_entry_in_sync (expiry (fst x)) x" and qx: "?Q x" by auto
    from y sync have sy: "day_entry_in_sync (expiry (fst y)) y" and qy: "?Q y" by auto
    from qx obtain dx tx where ex: "expiry (fst x) = Some (dx, tx)"
      by (auto simp: expires_on_before_def split: option.splits)
    from qy obtain dy ty where ey: "expiry (fst y) = Some (dy, ty)"
      by (auto simp: expires_on_before_def split: option.splits)
    from sx ex sy ey have v: "valid_time tx" "valid_time ty"
      by (simp_all add: day_entry_in_sync_def)
    from le day_index_key[OF sx[unfolded ex]] day_index_key[OF sy[unfolded ey]]
    have "str_time tx \<le> str_time ty" by simp
    from str_time_le[OF v this] ex ey
    show "expiry_time_us (expiry (fst x)) \<le> expiry_time_us (expiry (fst y))"
      by (simp add: expiry_time_us_def)
  qed
  from one two three show ?thesis by blast
qed

theorem expired_post_pks_by_day_witness:
  "valid_date ex_day \<and> valid_time ex_noon \<and> valid_time ex_ten \<and>
   list_all (\<lambda>e. day_entry_in_sync (ex_expiry (fst e)) e) ex_story_table \<and>
   generate_expired_post_pks_by_day ex_story_table ex_day (Some ex_noon)
     = [key_item (post_pk ''s1'')] \<and>
   generate_expired_post_pks_by_day ex_story_table ex_day (Some ex_ten) = []"
proof -
  have d: "valid_date ex_day" by (simp add: valid_date_def ex_day_def)
  have n: "valid_time ex_noon" by (simp add: valid_time_def ex_noon_def)
  have t: "valid_time ex_ten" by (simp add: valid_time_def ex_ten_def)
  have s: "\<forall>e \<in> set ex_story_table. day_entry_in_sync (ex_expiry (fst e)) e"
    using ex_story_sync by (simp add: list_all_iff)
  from expired_post_pks_by_day[OF s d, of "Some ex_noon"] n
  have one: "generate_expired_post_pks_by_day ex_story_table ex_day (Some ex_noon)
     = [key_item (post_pk ''s1'')]"
    unfolding ex_story_filter_noon by (auto simp: ex_story_def)
  from expired_post_pks_by_day[OF s d, of "Some ex_ten"] t
  have two: "generate_expired_post_pks_by_day ex_story_table ex_day (Some ex_ten) = []"
    unfolding ex_story_filter_ten by auto
  from d n t ex_story_sync one two show ?thesis by simp
qed

section \<open>The pointer after story changes\<close>




































section \<open>The index keys written with an expiry\<close>

text \<open>
  \<open>set_expires_at\<close> leaves the record in sync with the day index and with the per-owner
  expiry index, which is what the properties of the two queries assume of a table.
\<close>

lemma set_expires_at_in_sync:
  assumes ok: "set_expires_at tbl post_item expires_at = Inr (tbl', new)"
      and own: "post_item ''postId'' = Some (S post_id)"
      and old: "get_post tbl post_id = Some old"
               "old ''partitionKey'' = Some (S (''post/'' @ post_id))" "old ''sortKey'' = Some (S ''-'')"
               "old ''postedByUserId'' = post_item ''postedByUserId''"
      and st: "post_item ''postStatus'' = Some (S status)" "CHR ''/'' \<notin> set status"
      and v: "valid_date (date_of expires_at)" "valid_time (time_of expires_at)"
  shows "get_post tbl' post_id = Some new \<and>
         day_entry_in_sync (Some (date_of expires_at, time_of expires_at)) (post_pk post_id, new) \<and>
         story_in_sync new"
proof -
  from ok own st obtain posted_by where pb: "post_item ''postedByUserId'' = Some (S posted_by)"
    and u: "update_item tbl \<lparr>
          Key = post_pk post_id,
          UpdateExpression =
            [SET ''expiresAt'' (S (to_iso8601_string expires_at)),
             SET ''gsiA1PartitionKey'' (S (''post/'' @ posted_by)),
             SET ''gsiA1SortKey'' (S (status @ ''/'' @ to_iso8601_string expires_at)),
             SET ''gsiK1PartitionKey'' (S (''post/'' @ str_date (date_of expires_at))),
             SET ''gsiK1SortKey'' (S (str_time (time_of expires_at)))],
          ConditionExpression = Some (Cmp_eq ''postStatus'' (S status)) \<rparr> = Inr (tbl', new)"
    by (auto simp: set_expires_at_def Let_def and_then_Inr getitem_str_Inr)
  from u old(1) have n: "new = old
            (''expiresAt'' \<mapsto> S (to_iso8601_string expires_at),
             ''gsiA1PartitionKey'' \<mapsto> S (''post/'' @ posted_by),
             ''gsiA1SortKey'' \<mapsto> S (status @ ''/'' @ to_iso8601_string expires_at),
             ''gsiK1PartitionKey'' \<mapsto> S (''post/'' @ str_date (date_of expires_at)),
             ''gsiK1SortKey'' \<mapsto> S (str_time (time_of expires_at)))"
    and c: "old ''postStatus'' = Some (S status)"
    and t: "tbl' = AList.update (post_pk post_id) new tbl"
    by (auto simp: update_item_def run_update_def base_item_def get_post_def Let_def
             split: if_splits option.splits)
  have g: "get_post tbl' post_id = Some new"
    using t by (simp add: get_post_def update_conv')
  have d: "day_entry_in_sync (Some (date_of expires_at, time_of expires_at)) (post_pk post_id, new)"
    using n old(2,3) v by (simp add: day_entry_in_sync_def post_pk_def)
  have s: "story_in_sync new"
    using n c old(4) pb st(2) by (simp add: story_in_sync_def str_attr_def)
  from g d s show ?thesis by simp
qed

end
